theory Spec2Isabelle
  imports Main "HOL-Library.Sublist"
begin

section \<open>The file tree\<close>

text \<open>
  The tools of \<^verbatim>\<open>src/tools.js\<close> see the file system through \<^verbatim>\<open>fs.readdir\<close> (with
  \<^verbatim>\<open>withFileTypes\<close>), \<^verbatim>\<open>fs.stat\<close>, \<^verbatim>\<open>fs.readFile\<close> and \<^verbatim>\<open>fs.writeFile\<close>.
  A directory is the list of its entries in native enumeration order; an entry is a name
  and a node. Every call that can throw in the source has its failure as a value here:
  a directory that cannot be opened is \<open>Unreadable\<close>, a \<^verbatim>\<open>stat\<close> that fails is \<open>None\<close>,
  a file that cannot be read or written has its flag cleared.

  Paths are lists of components: \<^verbatim>\<open>path.join(currentPath, entry.name)\<close> appends one
  component, since a name returned by \<^verbatim>\<open>readdir\<close> has no separator in it and is
  neither \<^verbatim>\<open>.\<close> nor \<^verbatim>\<open>..\<close>.
\<close>

record fstat =
  st_size :: nat
  st_mtime :: int

record regular_file =
  file_stat :: "fstat option"
  file_content :: string
  file_readable :: bool
  file_writable :: bool

datatype node =
    File regular_file
  | Dir "(string \<times> node) list"
  | Unreadable
  | Other "fstat option"

type_synonym path = "string list"

text \<open>\<^verbatim>\<open>entry.isDirectory()\<close> and \<^verbatim>\<open>entry.isFile()\<close> of a \<^verbatim>\<open>Dirent\<close>. A symbolic link,
  socket or device is \<open>Other\<close>: neither of the two.\<close>

fun isDirectory :: "node \<Rightarrow> bool" where
  "isDirectory (Dir es) = True"
| "isDirectory Unreadable = True"
| "isDirectory (File f) = False"
| "isDirectory (Other s) = False"

fun isFile :: "node \<Rightarrow> bool" where
  "isFile (File f) = True"
| "isFile n = False"

text \<open>\<^verbatim>\<open>await fs.stat(fullPath)\<close>; \<open>None\<close> when it throws. The source calls it on
  entries that are not directories only, and the last equation is never reached.\<close>

fun stat :: "node \<Rightarrow> fstat option" where
  "stat (File f) = file_stat f"
| "stat (Other s) = s"
| "stat n = None"

subsection \<open>\<^verbatim>\<open>path.extname\<close>\<close>

text \<open>
  Node's POSIX \<^verbatim>\<open>path.extname\<close> scans the path from its last character to its first,
  keeping the position of the last dot (\<open>startDot\<close>), the end of the last path segment
  (\<open>endPart\<close>, the source's \<^verbatim>\<open>end\<close>), the start of that segment (\<open>startPart\<close>) and a
  three-valued \<open>preDotState\<close>. The loop is transcribed with its \<^verbatim>\<open>break\<close>; \<open>-1\<close> is
  the source's "not found yet".
\<close>

record ext_state =
  startDot :: int
  startPart :: int
  endPart :: int
  matchedSlash :: bool
  preDotState :: int

fun extname_loop :: "string \<Rightarrow> nat \<Rightarrow> ext_state \<Rightarrow> ext_state" where
  "extname_loop p 0 st = st"
| "extname_loop p (Suc i) st =
     (if p ! i = CHR ''/'' then
        (if \<not> matchedSlash st then st\<lparr>startPart := int i + 1\<rparr>
         else extname_loop p i st)
      else
        (let st1 = (if endPart st = - 1 then st\<lparr>matchedSlash := False, endPart := int i + 1\<rparr>
                    else st);
             st2 = (if p ! i = CHR ''.'' then
                      (if startDot st1 = - 1 then st1\<lparr>startDot := int i\<rparr>
                       else if preDotState st1 \<noteq> 1 then st1\<lparr>preDotState := 1\<rparr>
                       else st1)
                    else if startDot st1 \<noteq> - 1 then st1\<lparr>preDotState := - 1\<rparr>
                    else st1)
         in extname_loop p i st2))"

definition extname :: "string \<Rightarrow> string" where
  "extname p =
     (let st = extname_loop p (length p)
                 \<lparr>startDot = - 1, startPart = 0, endPart = - 1, matchedSlash = True,
                  preDotState = 0\<rparr>
      in if startDot st = - 1 \<or> endPart st = - 1 \<or> preDotState st = 0 \<or>
            (preDotState st = 1 \<and> startDot st = endPart st - 1 \<and>
             startDot st = startPart st + 1)
         then []
         else drop (nat (startDot st)) (take (nat (endPart st)) p))"

section \<open>The directory browser\<close>

text \<open>
  The three walkers of \<^verbatim>\<open>src/tools.js\<close> destructure their input with defaults. A
  field the input leaves out is \<open>None\<close> in the input record and takes the default of
  the source in the configuration the walker closes over. \<open>fileTypes\<close> and
  \<open>excludeDirs\<close> are common to the three, \<open>maxDepth\<close> and \<open>includeHidden\<close> to
  \<^verbatim>\<open>browseDirectory\<close> and \<^verbatim>\<open>findFiles\<close>.
\<close>

record filter_config =
  fileTypes :: "string list"
  excludeDirs :: "string list"

record walk_config = filter_config +
  maxDepth :: int
  includeHidden :: bool

record browse_config = walk_config +
  recursive :: bool

record browse_input =
  bi_recursive :: "bool option"
  bi_maxDepth :: "int option"
  bi_includeHidden :: "bool option"
  bi_fileTypes :: "string list option"
  bi_excludeDirs :: "string list option"

definition default_excludeDirs :: "string list" where
  "default_excludeDirs = [''node_modules'', ''.git'', ''.vscode'', ''.idea'']"

definition or_default :: "'a option \<Rightarrow> 'a \<Rightarrow> 'a" where
  "or_default v d = (case v of None \<Rightarrow> d | Some x \<Rightarrow> x)"

definition browse_defaults :: "browse_input \<Rightarrow> browse_config" where
  "browse_defaults inp =
     \<lparr>fileTypes = or_default (bi_fileTypes inp) [],
      excludeDirs = or_default (bi_excludeDirs inp) default_excludeDirs,
      maxDepth = or_default (bi_maxDepth inp) 3,
      includeHidden = or_default (bi_includeHidden inp) False,
      recursive = or_default (bi_recursive inp) False\<rparr>"

text \<open>The records pushed on \<^verbatim>\<open>results.directories\<close> and \<^verbatim>\<open>results.files\<close>. The field
  \<^verbatim>\<open>path\<close> is \<^verbatim>\<open>path.relative(absolutePath, fullPath)\<close>: the components below the root
  of the walk.\<close>

record dir_entry =
  d_name :: string
  d_path :: path
  d_depth :: nat

record file_entry =
  f_name :: string
  f_path :: path
  f_size :: nat
  f_modified :: int
  f_depth :: nat
  f_extension :: string

text \<open>The \<^verbatim>\<open>results\<close> object of \<^verbatim>\<open>browseDirectory\<close>, and with it the list of the
  directories handed to \<^verbatim>\<open>fs.readdir\<close>, in call order and as paths below the root
  (\<open>reads\<close>; not a field of the source, it records the effect).\<close>

record browse_results =
  files :: "file_entry list"
  directories :: "dir_entry list"
  totalFiles :: nat
  totalDirs :: nat
  totalSize :: nat
  reads :: "path list"

definition startsWithDot :: "string \<Rightarrow> bool" where
  "startsWithDot name = (case name of [] \<Rightarrow> False | c # cs \<Rightarrow> c = CHR ''.'')"

text \<open>The guard \<^verbatim>\<open>!includeHidden && entry.name.startsWith(".")\<close> of the browser and the
  finder.\<close>

definition skipHidden :: "'a walk_config_scheme \<Rightarrow> string \<Rightarrow> bool" where
  "skipHidden c name = (\<not> includeHidden c \<and> startsWithDot name)"

definition push_dir :: "string \<Rightarrow> path \<Rightarrow> nat \<Rightarrow> browse_results \<Rightarrow> browse_results" where
  "push_dir name p depth r =
     r\<lparr>directories := directories r @ [\<lparr>d_name = name, d_path = p, d_depth = depth\<rparr>],
       totalDirs := totalDirs r + 1\<rparr>"

definition push_file ::
  "browse_config \<Rightarrow> string \<Rightarrow> path \<Rightarrow> nat \<Rightarrow> fstat \<Rightarrow> browse_results \<Rightarrow> browse_results" where
  "push_file c name p depth s r =
     (if fileTypes c = [] \<or> extname name \<in> set (fileTypes c) then
        r\<lparr>files := files r @ [\<lparr>f_name = name, f_path = p, f_size = st_size s,
                                 f_modified = st_mtime s, f_depth = depth,
                                 f_extension = extname name\<rparr>],
          totalFiles := totalFiles r + 1,
          totalSize := totalSize r + st_size s\<rparr>
      else r)"

text \<open>
  \<^verbatim>\<open>scanDirectory(currentPath, currentDepth)\<close>, with \<open>p\<close> the components of
  \<^verbatim>\<open>currentPath\<close> below \<^verbatim>\<open>absolutePath\<close>. The body of the source is one
  \<^verbatim>\<open>try\<close> around \<^verbatim>\<open>readdir\<close> and the loop over the entries, with an empty
  \<^verbatim>\<open>catch\<close>: when \<^verbatim>\<open>readdir\<close> throws nothing is recorded, and when \<^verbatim>\<open>fs.stat\<close>
  throws inside the loop the remaining entries of that directory are skipped while
  what was pushed before stays. \<open>scanEntries\<close> is the loop.
\<close>

fun scanDirectory :: "browse_config \<Rightarrow> path \<Rightarrow> node \<Rightarrow> nat \<Rightarrow> browse_results \<Rightarrow> browse_results"
and scanEntries ::
  "browse_config \<Rightarrow> path \<Rightarrow> (string \<times> node) list \<Rightarrow> nat \<Rightarrow> browse_results \<Rightarrow> browse_results"
where
  "scanDirectory c p (Dir es) depth r =
     (if int depth > maxDepth c then r
      else scanEntries c p es depth (r\<lparr>reads := reads r @ [p]\<rparr>))"
| "scanDirectory c p (File f) depth r =
     (if int depth > maxDepth c then r else r\<lparr>reads := reads r @ [p]\<rparr>)"
| "scanDirectory c p Unreadable depth r =
     (if int depth > maxDepth c then r else r\<lparr>reads := reads r @ [p]\<rparr>)"
| "scanDirectory c p (Other s) depth r =
     (if int depth > maxDepth c then r else r\<lparr>reads := reads r @ [p]\<rparr>)"
| "scanEntries c p [] depth r = r"
| "scanEntries c p ((name, n) # rest) depth r =
     (if skipHidden c name then scanEntries c p rest depth r
      else if isDirectory n \<and> name \<in> set (excludeDirs c) then scanEntries c p rest depth r
      else if isDirectory n then
        (let r1 = push_dir name (p @ [name]) depth r;
             r2 = (if recursive c \<and> int depth < maxDepth c
                   then scanDirectory c (p @ [name]) n (depth + 1) r1 else r1)
         in scanEntries c p rest depth r2)
      else
        (case stat n of
           None \<Rightarrow> r
         | Some s \<Rightarrow> scanEntries c p rest depth (push_file c name (p @ [name]) depth s r)))"

definition empty_results :: browse_results where
  "empty_results = \<lparr>files = [], directories = [], totalFiles = 0, totalDirs = 0,
                    totalSize = 0, reads = []\<rparr>"

text \<open>\<^verbatim>\<open>await scanDirectory(absolutePath)\<close>: the walk of \<^verbatim>\<open>browseDirectory\<close> from the
  root, at depth 0. The sort that follows in the source permutes \<^verbatim>\<open>results.files\<close> and
  \<^verbatim>\<open>results.directories\<close> and records nothing.\<close>

definition browseDirectory :: "browse_input \<Rightarrow> node \<Rightarrow> browse_results" where
  "browseDirectory inp root = scanDirectory (browse_defaults inp) [] root 0 empty_results"

section \<open>Strings and regular expressions of the platform\<close>

text \<open>
  A string is the list of its UTF-16 code units, one \<open>char\<close> for each: the theory is
  about the strings whose code units are below 256, which is what \<open>char\<close> holds (a
  name or a text with a character beyond Latin-1 is outside it). \<^verbatim>\<open>s.includes(t)\<close>
  is containment of \<open>t\<close> as a contiguous run.
\<close>

fun str_includes :: "string \<Rightarrow> string \<Rightarrow> bool" where
  "str_includes [] t = (t = [])"
| "str_includes (c # s) t = (prefix t (c # s) \<or> str_includes s t)"

text \<open>
  \<^verbatim>\<open>s.split(sep)\<close> for a string separator: the pieces between the occurrences of
  \<open>sep\<close>, found from the left, each search starting after the previous occurrence.
  With the empty separator the pieces are the code units. \<open>split_from\<close> carries the
  piece being read, reversed.
\<close>

fun split_from :: "string \<Rightarrow> string \<Rightarrow> string \<Rightarrow> string list" where
  "split_from sep acc [] = [rev acc]"
| "split_from sep acc (c # s) =
     (if prefix sep (c # s)
      then rev acc # split_from sep [] (drop (length sep - 1) s)
      else split_from sep (c # acc) s)"

definition split_str :: "string \<Rightarrow> string \<Rightarrow> string list" where
  "split_str s sep = (if sep = [] then map (\<lambda>c. [c]) s else split_from sep [] s)"

text \<open>
  The characters with a meaning of their own in the source text of a \<^verbatim>\<open>RegExp\<close>
  (the first is the backslash).
  The theory gives their meaning to the regular expressions whose source is made of
  other characters, of the dot, and of a star that follows one of these: the ones the
  glob translation of \<^verbatim>\<open>findFiles\<close> produces from a pattern free of the other syntax
  characters. \<open>parse_pieces\<close> is \<open>None\<close> on any other source.
\<close>

definition syntax_chars :: "char list" where
  "syntax_chars = CHR 0x5C # ''^$.*+?()[]{}|''"

datatype atom = Lit char | AnyChar

datatype piece = One atom | Star atom

fun parse_pieces :: "string \<Rightarrow> piece list option" where
  "parse_pieces [] = Some []"
| "parse_pieces (c # cs) =
     (if c \<noteq> CHR ''.'' \<and> c \<in> set syntax_chars then None
      else
        (let a = (if c = CHR ''.'' then AnyChar else Lit c)
         in case cs of
              [] \<Rightarrow> Some [One a]
            | d # ds \<Rightarrow>
                if d = CHR ''*''
                then map_option (\<lambda>ps. Star a # ps) (parse_pieces ds)
                else map_option (\<lambda>ps. One a # ps) (parse_pieces (d # ds))))"


text \<open>Without the \<^verbatim>\<open>s\<close> flag the dot matches any code unit but a line terminator
  (of which line feed and carriage return are code units of one byte).\<close>

fun atom_matches :: "atom \<Rightarrow> char \<Rightarrow> bool" where
  "atom_matches (Lit a) c = (c = a)"
| "atom_matches AnyChar c = (c \<noteq> CHR 0x0A \<and> c \<noteq> CHR 0x0D)"

text \<open>\<^verbatim>\<open>regex.test(name)\<close> for an anchored expression: the star is greedy and
  backtracks, so the test succeeds when some split of the input fits.\<close>

fun test :: "piece list \<Rightarrow> string \<Rightarrow> bool" where
  "test [] s = (s = [])"
| "test (One a # ps) [] = False"
| "test (One a # ps) (c # s) = (atom_matches a c \<and> test ps s)"
| "test (Star a # ps) [] = test ps []"
| "test (Star a # ps) (c # s) = ((atom_matches a c \<and> test (Star a # ps) s) \<or> test ps (c # s))"

text \<open>
  \<^verbatim>\<open>new RegExp(`^${body}$`)\<close>, without flags, as the test \<^verbatim>\<open>regex.test\<close> then makes
  on a name; \<open>None\<close> when the constructor throws a \<^verbatim>\<open>SyntaxError\<close>. On a source the
  theory gives a meaning to, the test is \<open>test\<close>. On every other source it is what the
  platform's \<^verbatim>\<open>RegExp\<close> does, which the theory takes as given: \<open>rx\<close> maps the source
  text handed to the constructor to the test of the expression built, or to \<open>None\<close>
  when the text is not a regular expression.
\<close>

type_synonym regexp_engine = "string \<Rightarrow> (string \<Rightarrow> bool) option"

definition RegExp_anchored :: "regexp_engine \<Rightarrow> string \<Rightarrow> (string \<Rightarrow> bool) option" where
  "RegExp_anchored rx body =
     (case parse_pieces body of
        Some regex \<Rightarrow> Some (test regex)
      | None \<Rightarrow> rx (''^'' @ body @ ''$''))"

text \<open>\<^verbatim>\<open>pattern.replace(/\*/g, '.*')\<close>.\<close>

fun replace_stars :: "string \<Rightarrow> string" where
  "replace_stars [] = []"
| "replace_stars (c # cs) = (if c = CHR ''*'' then ''.*'' @ replace_stars cs else c # replace_stars cs)"

text \<open>
  \<^verbatim>\<open>content.replace(new RegExp(searchText, 'g'), replaceText)\<close>. It is modelled for a
  non-empty \<open>searchText\<close> free of syntax characters, which the expression matches
  as it stands, and for a \<open>replaceText\<close> free of \<^verbatim>\<open>$\<close>, which is then inserted as it
  stands: every occurrence found from the left, each search starting after the previous
  occurrence, is replaced. Otherwise the result is \<open>None\<close>.
\<close>

fun replace_each :: "string \<Rightarrow> string \<Rightarrow> string \<Rightarrow> string" where
  "replace_each sep rep [] = []"
| "replace_each sep rep (c # s) =
     (if prefix sep (c # s)
      then rep @ replace_each sep rep (drop (length sep - 1) s)
      else c # replace_each sep rep s)"

definition replace_global :: "string \<Rightarrow> string \<Rightarrow> string \<Rightarrow> string option" where
  "replace_global sep rep s =
     (if sep = [] \<or> (\<exists>c\<in>set sep. c \<in> set syntax_chars) \<or> CHR ''$'' \<in> set rep
      then None
      else Some (replace_each sep rep s))"

section \<open>The file finder\<close>

text \<open>
  \<^verbatim>\<open>process.cwd()\<close> and the resolved \<^verbatim>\<open>absolutePath\<close> of a tool call, as absolute
  paths, and \<^verbatim>\<open>path.relative(from, to)\<close> on absolute normalised paths: one \<^verbatim>\<open>..\<close> for
  each component of \<open>from\<close> below the common prefix, then the rest of \<open>to\<close>.
\<close>

record location =
  cwd :: path
  absolutePath :: path

fun relative :: "path \<Rightarrow> path \<Rightarrow> path" where
  "relative (a # xs) (b # ys) =
     (if a = b then relative xs ys else map (\<lambda>x. ''..'') (a # xs) @ (b # ys))"
| "relative xs ys = map (\<lambda>x. ''..'') xs @ ys"

record find_config = walk_config +
  pattern :: string

record find_input =
  fi_pattern :: "string option"
  fi_fileTypes :: "string list option"
  fi_excludeDirs :: "string list option"
  fi_maxDepth :: "int option"
  fi_includeHidden :: "bool option"

definition find_defaults :: "find_input \<Rightarrow> find_config" where
  "find_defaults inp =
     \<lparr>fileTypes = or_default (fi_fileTypes inp) [],
      excludeDirs = or_default (fi_excludeDirs inp) default_excludeDirs,
      maxDepth = or_default (fi_maxDepth inp) 5,
      includeHidden = or_default (fi_includeHidden inp) False,
      pattern = or_default (fi_pattern inp) []\<rparr>"

text \<open>
  The test of \<^verbatim>\<open>searchDirectory\<close> on the name of an entry that is not a directory
  (\<^verbatim>\<open>matchesPattern\<close> in the source). \<open>None\<close> when \<^verbatim>\<open>new RegExp\<close> throws.
\<close>

definition matchesPattern ::
  "regexp_engine \<Rightarrow> string \<Rightarrow> string list \<Rightarrow> string \<Rightarrow> bool option" where
  "matchesPattern rx pat types name =
     (case (if CHR ''*'' \<in> set pat
            then map_option (\<lambda>regex. regex name) (RegExp_anchored rx (replace_stars pat))
            else Some (str_includes name pat)) of
        None \<Rightarrow> None
      | Some m \<Rightarrow> Some (if \<not> m \<and> types \<noteq> [] then extname name \<in> set types else m))"

record found_entry =
  fe_name :: string
  fe_path :: path
  fe_size :: nat
  fe_modified :: int
  fe_extension :: string

text \<open>The \<^verbatim>\<open>results\<close> array of \<^verbatim>\<open>findFiles\<close>, and the directories handed to
  \<^verbatim>\<open>fs.readdir\<close> as paths below the root (\<open>find_reads\<close>, which records the effect).\<close>

record find_results =
  found :: "found_entry list"
  find_reads :: "path list"

text \<open>
  \<^verbatim>\<open>searchDirectory(currentPath, currentDepth)\<close>, with \<open>p\<close> the components of
  \<^verbatim>\<open>currentPath\<close> below \<^verbatim>\<open>absolutePath\<close>; \<open>searchEntries\<close> is its loop. The loop
  stands in one \<^verbatim>\<open>try\<close> with an empty \<^verbatim>\<open>catch\<close>: a \<^verbatim>\<open>stat\<close> that throws, and a
  \<^verbatim>\<open>new RegExp\<close> that throws, end the loop of their directory, and what was found
  before stays.
\<close>

fun searchDirectory ::
  "regexp_engine \<Rightarrow> find_config \<Rightarrow> location \<Rightarrow> path \<Rightarrow> node \<Rightarrow> nat \<Rightarrow> find_results
     \<Rightarrow> find_results"
and searchEntries ::
  "regexp_engine \<Rightarrow> find_config \<Rightarrow> location \<Rightarrow> path \<Rightarrow> (string \<times> node) list \<Rightarrow> nat
     \<Rightarrow> find_results \<Rightarrow> find_results"
where
  "searchDirectory rx c l p (Dir es) depth r =
     (if int depth > maxDepth c then r
      else searchEntries rx c l p es depth (r\<lparr>find_reads := find_reads r @ [p]\<rparr>))"
| "searchDirectory rx c l p (File f) depth r =
     (if int depth > maxDepth c then r else r\<lparr>find_reads := find_reads r @ [p]\<rparr>)"
| "searchDirectory rx c l p Unreadable depth r =
     (if int depth > maxDepth c then r else r\<lparr>find_reads := find_reads r @ [p]\<rparr>)"
| "searchDirectory rx c l p (Other s) depth r =
     (if int depth > maxDepth c then r else r\<lparr>find_reads := find_reads r @ [p]\<rparr>)"
| "searchEntries rx c l p [] depth r = r"
| "searchEntries rx c l p ((name, n) # rest) depth r =
     (if skipHidden c name then searchEntries rx c l p rest depth r
      else if isDirectory n \<and> name \<in> set (excludeDirs c)
      then searchEntries rx c l p rest depth r
      else if isDirectory n then
        searchEntries rx c l p rest depth (searchDirectory rx c l (p @ [name]) n (depth + 1) r)
      else
        (case matchesPattern rx (pattern c) (fileTypes c) name of
           None \<Rightarrow> r
         | Some False \<Rightarrow> searchEntries rx c l p rest depth r
         | Some True \<Rightarrow>
             (case stat n of
                None \<Rightarrow> r
              | Some s \<Rightarrow>
                  searchEntries rx c l p rest depth
                    (r\<lparr>found := found r @
                         [\<lparr>fe_name = name,
                           fe_path = relative (cwd l) (absolutePath l @ p @ [name]),
                           fe_size = st_size s, fe_modified = st_mtime s,
                           fe_extension = extname name\<rparr>]\<rparr>))))"

text \<open>
  \<^verbatim>\<open>findFiles\<close> up to the \<^verbatim>\<open>results\<close> it formats: \<open>Inl\<close> is the message of the
  \<^verbatim>\<open>Error\<close> it throws, which an absent or empty pattern causes.
\<close>

definition findFiles ::
  "regexp_engine \<Rightarrow> find_input \<Rightarrow> location \<Rightarrow> node \<Rightarrow> string + find_results" where
  "findFiles rx inp l root =
     (if pattern (find_defaults inp) = []
      then Inl ''File search failed: Search pattern is required''
      else Inr (searchDirectory rx (find_defaults inp) l [] root 0
                  \<lparr>found = [], find_reads = []\<rparr>))"

section \<open>Global search and replace\<close>

record replace_config = filter_config +
  searchText :: string
  replaceText :: "string option"
  dryRun :: bool

record replace_input =
  ri_searchText :: "string option"
  ri_replaceText :: "string option"
  ri_fileTypes :: "string list option"
  ri_excludeDirs :: "string list option"
  ri_dryRun :: "bool option"

definition default_fileTypes :: "string list" where
  "default_fileTypes = [''.js'', ''.ts'', ''.jsx'', ''.tsx'', ''.json'', ''.md'']"

definition replace_defaults :: "replace_input \<Rightarrow> replace_config" where
  "replace_defaults inp =
     \<lparr>fileTypes = or_default (ri_fileTypes inp) default_fileTypes,
      excludeDirs = or_default (ri_excludeDirs inp) default_excludeDirs,
      searchText = or_default (ri_searchText inp) [],
      replaceText = ri_replaceText inp,
      dryRun = or_default (ri_dryRun inp) True\<rparr>"

record change =
  ch_file :: path
  ch_matches :: nat
  ch_replaced :: bool

text \<open>The \<^verbatim>\<open>results\<close> object of \<^verbatim>\<open>globalSearchReplace\<close>, and the calls of
  \<^verbatim>\<open>fs.writeFile\<close> that succeeded, in order, each with the path below the root and the
  text written (\<open>writes\<close>, which records the effect).\<close>

record replace_results =
  filesProcessed :: nat
  matchesFound :: nat
  replacements :: nat
  changes :: "change list"
  writes :: "(path \<times> string) list"

text \<open>
  The body of the branch \<^verbatim>\<open>else if (entry.isFile())\<close> of the loop, for the entry
  \<open>name\<close> at \<open>p\<close> (\<open>p\<close> ends with \<open>name\<close>). It returns the results and the node as the call leaves
  them. The inner \<^verbatim>\<open>try\<close> of the source swallows what \<^verbatim>\<open>readFile\<close> and
  \<^verbatim>\<open>writeFile\<close> throw: an unreadable file changes nothing, and a file that cannot be
  written has been counted in \<open>filesProcessed\<close> and \<open>matchesFound\<close> before the throw.
  \<open>None\<close> when the replacement is outside the modelled regular expressions.
\<close>

definition processFile ::
  "replace_config \<Rightarrow> location \<Rightarrow> path \<Rightarrow> string \<Rightarrow> node \<Rightarrow> replace_results
     \<Rightarrow> (replace_results \<times> node) option" where
  "processFile c l p name n r =
     (case n of
        File f \<Rightarrow>
          if fileTypes c = [] \<or> extname name \<in> set (fileTypes c) then
            if \<not> file_readable f then Some (r, n)
            else
              (let matches = int (length (split_str (file_content f) (searchText c))) - 1
               in if matches > 0 then
                    (let r1 = r\<lparr>filesProcessed := filesProcessed r + 1,
                                matchesFound := matchesFound r + nat matches\<rparr>;
                         rel = relative (cwd l) (absolutePath l @ p)
                     in if \<not> dryRun c \<and> replaceText c \<noteq> None then
                          (case replace_global (searchText c) (the (replaceText c))
                                  (file_content f) of
                             None \<Rightarrow> None
                           | Some newContent \<Rightarrow>
                               if file_writable f then
                                 Some (r1\<lparr>replacements := replacements r1 + nat matches,
                                          changes := changes r1 @
                                            [\<lparr>ch_file = rel, ch_matches = nat matches,
                                              ch_replaced = True\<rparr>],
                                          writes := writes r1 @ [(p, newContent)]\<rparr>,
                                       File (f\<lparr>file_content := newContent\<rparr>))
                               else Some (r1, n))
                        else
                          Some (r1\<lparr>changes := changes r1 @
                                      [\<lparr>ch_file = rel, ch_matches = nat matches,
                                        ch_replaced = False\<rparr>]\<rparr>, n))
                  else Some (r, n))
          else Some (r, n)
      | _ \<Rightarrow> Some (r, n))"

text \<open>
  \<^verbatim>\<open>processDirectory(currentPath)\<close> and its loop. Beside the results they return the
  tree as the call leaves it: an entry is read before it is written and no entry is
  visited twice, so the tree after the walk is the tree before it with the written files
  replaced. Hidden entries are not skipped and there is no depth bound.
\<close>

fun processDirectory ::
  "replace_config \<Rightarrow> location \<Rightarrow> path \<Rightarrow> node \<Rightarrow> replace_results
     \<Rightarrow> (replace_results \<times> node) option"
and processEntries ::
  "replace_config \<Rightarrow> location \<Rightarrow> path \<Rightarrow> (string \<times> node) list \<Rightarrow> replace_results
     \<Rightarrow> (replace_results \<times> (string \<times> node) list) option"
where
  "processDirectory c l p (Dir es) r =
     (case processEntries c l p es r of
        None \<Rightarrow> None
      | Some (r', es') \<Rightarrow> Some (r', Dir es'))"
| "processDirectory c l p (File f) r = Some (r, File f)"
| "processDirectory c l p Unreadable r = Some (r, Unreadable)"
| "processDirectory c l p (Other s) r = Some (r, Other s)"
| "processEntries c l p [] r = Some (r, [])"
| "processEntries c l p ((name, n) # rest) r =
     (case (if isDirectory n \<and> name \<notin> set (excludeDirs c)
            then processDirectory c l (p @ [name]) n r
            else if isFile n then processFile c l (p @ [name]) name n r
            else Some (r, n)) of
        None \<Rightarrow> None
      | Some (r1, n1) \<Rightarrow>
          (case processEntries c l p rest r1 of
             None \<Rightarrow> None
           | Some (r2, rest') \<Rightarrow> Some (r2, (name, n1) # rest')))"

definition no_results :: replace_results where
  "no_results = \<lparr>filesProcessed = 0, matchesFound = 0, replacements = 0, changes = [],
                 writes = []\<rparr>"

text \<open>
  \<^verbatim>\<open>globalSearchReplace\<close> up to the \<^verbatim>\<open>results\<close> it formats, with the tree it leaves.
  \<open>Inl\<close> is the message of the \<^verbatim>\<open>Error\<close> it throws, which an absent or empty search
  text causes.
\<close>

definition globalSearchReplace ::
  "replace_input \<Rightarrow> location \<Rightarrow> node \<Rightarrow> (string + replace_results \<times> node) option" where
  "globalSearchReplace inp l root =
     (if searchText (replace_defaults inp) = []
      then Some (Inl ''Global search/replace failed: Search text is required'')
      else map_option Inr (processDirectory (replace_defaults inp) l [] root no_results))"

section \<open>The conversation driver\<close>

text \<open>
  The values \<^verbatim>\<open>JSON.parse\<close> returns. A number is kept as the text JavaScript prints
  for it; an object is the list of its own properties, each key once.
\<close>

datatype json =
    JNull
  | JBool bool
  | JNum string
  | JStr string
  | JArr "json list"
  | JObj "(string \<times> json) list"

text \<open>\<^verbatim>\<open>step.key\<close> for the keys the driver reads; \<open>None\<close> is \<^verbatim>\<open>undefined\<close>. On \<^verbatim>\<open>null\<close> the
  read throws, which the driver's callers below test first.\<close>

fun get_prop :: "json \<Rightarrow> string \<Rightarrow> json option" where
  "get_prop (JObj fs) k = map_of fs k"
| "get_prop j k = None"

fun is_string :: "json option \<Rightarrow> bool" where
  "is_string (Some (JStr s)) = True"
| "is_string v = False"

text \<open>
  The conversion of a value to a string, which a template literal and a computed
  property key (\<^verbatim>\<open>tools[step.function]\<close>) both apply. It throws a \<^verbatim>\<open>TypeError\<close> on an
  object with a property \<^verbatim>\<open>toString\<close> of its own (no value of \<^verbatim>\<open>JSON.parse\<close> can be
  called), and on an array with such an element.
\<close>

fun join_with :: "string \<Rightarrow> string list \<Rightarrow> string" where
  "join_with sep [] = []"
| "join_with sep [x] = x"
| "join_with sep (x # y # ys) = x @ sep @ join_with sep (y # ys)"

fun to_string_throws :: "json \<Rightarrow> bool" where
  "to_string_throws (JObj fs) = (''toString'' \<in> set (map fst fs))"
| "to_string_throws (JArr xs) = list_ex to_string_throws xs"
| "to_string_throws j = False"

fun to_string :: "json \<Rightarrow> string" where
  "to_string JNull = ''null''"
| "to_string (JBool b) = (if b then ''true'' else ''false'')"
| "to_string (JNum s) = s"
| "to_string (JStr s) = s"
| "to_string (JArr xs) =
     join_with '','' (map (\<lambda>x. if x = JNull then [] else to_string x) xs)"
| "to_string (JObj fs) = ''[object Object]''"

definition to_string_opt :: "json option \<Rightarrow> string" where
  "to_string_opt v = (case v of None \<Rightarrow> ''undefined'' | Some j \<Rightarrow> to_string j)"

definition to_string_opt_throws :: "json option \<Rightarrow> bool" where
  "to_string_opt_throws v = (case v of None \<Rightarrow> False | Some j \<Rightarrow> to_string_throws j)"

text \<open>
  A thrown \<^verbatim>\<open>Error\<close>: its \<^verbatim>\<open>name\<close> (that of its class), its message and its stack. The stack of an error the
  driver's own code creates is the name of its class, its message and the frames of the
  call site, which are the environment's.
\<close>

record js_error =
  error_name :: string
  message :: string
  stack :: string

definition new_error :: "string \<Rightarrow> string \<Rightarrow> string \<Rightarrow> js_error" where
  "new_error cls msg frames =
     \<lparr>error_name = cls, message = msg, stack = cls @ '': '' @ msg @ frames\<rparr>"

text \<open>
  What \<^verbatim>\<open>await\<close> gets from a promise: the promise settles, or it stays pending for
  ever and the \<^verbatim>\<open>await\<close> never returns. Nothing in the drivers bounds the time of a
  call.
\<close>

datatype 'a awaited = Settled 'a | Pending

text \<open>
  The registry \<^verbatim>\<open>tools\<close> of \<^verbatim>\<open>src/tools.js\<close> is an object literal. Its own properties
  are the tools, each with a \<^verbatim>\<open>fn\<close>; a tool takes \<^verbatim>\<open>step.input\<close> and the state of
  the world outside the driver, and its call settles, with the text it returns or the
  error it throws and a new state of the world, or stays pending.
  Being an object literal, \<^verbatim>\<open>tools\<close> inherits the properties of
  \<^verbatim>\<open>Object.prototype\<close>: \<^verbatim>\<open>tools[key]\<close> is truthy for these names too, and has no
  \<^verbatim>\<open>fn\<close>.
\<close>

type_synonym 'w tool = "json option \<Rightarrow> 'w \<Rightarrow> ((js_error + string) \<times> 'w) awaited"

definition tool_names :: "string list" where
  "tool_names =
     [''executeCommand'', ''readFile'', ''writeFile'', ''listFiles'', ''analyzeError'',
      ''searchInFiles'', ''getSystemInfo'', ''browseDirectory'', ''findFiles'',
      ''globalSearchReplace'', ''createProject'', ''backupWorkspace'', ''getConfig'',
      ''setConfig'', ''listTemplates'', ''addTemplate'', ''removeTemplate'', ''resetConfig'',
      ''generateCode'', ''implementFeature'', ''refactorCode'', ''createAPI'',
      ''generateApp'']"

definition object_prototype_names :: "string list" where
  "object_prototype_names =
     [''constructor'', ''__defineGetter__'', ''__defineSetter__'', ''hasOwnProperty'',
      ''__lookupGetter__'', ''__lookupSetter__'', ''isPrototypeOf'',
      ''propertyIsEnumerable'', ''toString'', ''valueOf'', ''__proto__'',
      ''toLocaleString'']"

text \<open>
  What the driver is given: the model gateway \<^verbatim>\<open>await model.generateContent\<close> followed
  by \<^verbatim>\<open>result.response.text()\<close> (settled with \<open>None\<close> when either throws),
  \<^verbatim>\<open>JSON.parse\<close> (\<open>None\<close> when it throws), \<^verbatim>\<open>JSON.stringify\<close>, the own properties of
  \<^verbatim>\<open>tools\<close>, and the stack frames.
\<close>

record 'w env =
  generateContent :: "string \<Rightarrow> string option awaited"
  parse :: "string \<Rightarrow> json option"
  stringify :: "json \<Rightarrow> string"
  registry :: "string \<Rightarrow> 'w tool option"
  frames :: string

text \<open>What the driver does that can be seen from outside, in order.\<close>

datatype event =
    ModelCall string
  | ToolCall string "json option"
  | StepLogged json
  | ParseErrorReported string
  | ActionFailed string
  | UnexpectedError
  | Completed
  | MaxStepsReached
  | Goodbye

record 'w driver_state =
  messages :: "string list"
  stepCount :: nat
  world :: 'w
  trace :: "event list"

definition emit :: "event \<Rightarrow> 'w driver_state \<Rightarrow> 'w driver_state" where
  "emit ev s = s\<lparr>trace := trace s @ [ev]\<rparr>"

definition push_message :: "string \<Rightarrow> 'w driver_state \<Rightarrow> 'w driver_state" where
  "push_message m s = s\<lparr>messages := messages s @ [m]\<rparr>"

text \<open>
  \<^verbatim>\<open>logStep\<close> throws a \<^verbatim>\<open>TypeError\<close> on \<^verbatim>\<open>null\<close> (it reads \<^verbatim>\<open>step.type\<close>), on a step
  whose type is \<^verbatim>\<open>plan\<close>, \<^verbatim>\<open>action\<close> or \<^verbatim>\<open>output\<close> when the field it prints in a
  template literal cannot be converted to a string (\<^verbatim>\<open>step.summary\<close> is printed when it
  is truthy, which an object or an array is), and on a step of type \<^verbatim>\<open>observation\<close>
  whose \<^verbatim>\<open>observation\<close> is not a string (it calls \<^verbatim>\<open>substring\<close> on it). Otherwise it
  prints and returns.
\<close>

definition logStep_throws :: "json \<Rightarrow> bool" where
  "logStep_throws step =
     (step = JNull \<or>
      (get_prop step ''type'' = Some (JStr ''plan'') \<and>
       to_string_opt_throws (get_prop step ''plan'')) \<or>
      (get_prop step ''type'' = Some (JStr ''action'') \<and>
       to_string_opt_throws (get_prop step ''function'')) \<or>
      (get_prop step ''type'' = Some (JStr ''output'') \<and>
       (to_string_opt_throws (get_prop step ''output'') \<or>
        to_string_opt_throws (get_prop step ''summary''))) \<or>
      (get_prop step ''type'' = Some (JStr ''observation'') \<and>
       \<not> is_string (get_prop step ''observation'')))"

definition observation :: "string \<Rightarrow> json" where
  "observation text = JObj [(''type'', JStr ''observation''), (''observation'', JStr text)]"

text \<open>The message of the \<^verbatim>\<open>Error\<close> the driver throws for a missing tool, and the messages
  of the \<^verbatim>\<open>TypeError\<close> that Node (V8) throws when \<^verbatim>\<open>tools[step.function].fn\<close> is called
  and is \<^verbatim>\<open>undefined\<close>, and when \<^verbatim>\<open>step.function\<close> cannot be converted to a property
  key.\<close>

definition not_found_message :: "string \<Rightarrow> string" where
  "not_found_message key = ''Tool '' @ [CHR 0x27] @ key @ [CHR 0x27] @ '' not found''"

definition not_a_function_message :: string where
  "not_a_function_message = ''tools[step.function].fn is not a function''"

definition not_a_primitive_message :: string where
  "not_a_primitive_message = ''Cannot convert object to primitive value''"

text \<open>
  The \<^verbatim>\<open>try\<close> block of the action branch up to the tool's return: the lookup of
  \<^verbatim>\<open>tools[step.function]\<close>, the \<^verbatim>\<open>throw\<close> when it is falsy, and
  \<^verbatim>\<open>await tools[step.function].fn(step.input)\<close>. \<open>Settled (Inl err)\<close> is what the
  \<^verbatim>\<open>catch\<close> of the action branch receives, \<open>Pending\<close> a call of the tool that does not
  settle. The call of a tool is recorded in the trace when it is made.
\<close>

definition attempt_action ::
  "'w env \<Rightarrow> json \<Rightarrow> 'w driver_state \<Rightarrow> (js_error + string) awaited \<times> 'w driver_state" where
  "attempt_action e step s =
     (if to_string_opt_throws (get_prop step ''function'')
      then (Settled (Inl (new_error ''TypeError'' not_a_primitive_message (frames e))), s)
      else
        (let key = to_string_opt (get_prop step ''function'')
         in case registry e key of
              Some tool \<Rightarrow>
                (let s1 = emit (ToolCall key (get_prop step ''input'')) s
                 in case tool (get_prop step ''input'') (world s) of
                      Pending \<Rightarrow> (Pending, s1)
                    | Settled (res, w) \<Rightarrow> (Settled res, s1\<lparr>world := w\<rparr>))
            | None \<Rightarrow>
                if key \<in> set object_prototype_names
                then (Settled (Inl (new_error ''TypeError'' not_a_function_message (frames e))),
                      s)
                else (Settled (Inl (new_error ''Error'' (not_found_message key) (frames e))),
                      s)))"

text \<open>The text of the observation the action branch builds: from the tool's result in
  the \<^verbatim>\<open>try\<close>, from the caught error in the \<^verbatim>\<open>catch\<close>.\<close>

definition observation_text :: "js_error + string \<Rightarrow> string" where
  "observation_text res =
     (case res of
        Inr result \<Rightarrow> ''Success: '' @ result
      | Inl err \<Rightarrow> ''Error: '' @ message err @ [CHR 0x0A] @ ''Stack: '' @ stack err)"

datatype control = Continue | Break | Hang

text \<open>The action branch: both arms log the observation, push its serialisation on
  \<^verbatim>\<open>messages\<close> and \<^verbatim>\<open>continue\<close>; the \<^verbatim>\<open>catch\<close> reports the failure first. While the
  call of the tool is pending the driver does nothing (\<open>Hang\<close>).\<close>

definition action_branch ::
  "'w env \<Rightarrow> json \<Rightarrow> 'w driver_state \<Rightarrow> control \<times> 'w driver_state" where
  "action_branch e step s =
     (case attempt_action e step s of
        (Pending, s1) \<Rightarrow> (Hang, s1)
      | (Settled res, s1) \<Rightarrow>
          (let obs = observation (observation_text res);
               s2 = (case res of Inl err \<Rightarrow> emit (ActionFailed (message err)) s1 | Inr x \<Rightarrow> s1)
           in (Continue, push_message (stringify e obs) (emit (StepLogged obs) s2))))"

text \<open>
  One pass through the body of \<^verbatim>\<open>while (stepCount < maxSteps)\<close>. The outer
  \<^verbatim>\<open>catch\<close> reports an unexpected error and breaks; a step that is neither an action,
  an output nor a plan falls through to the end of the body, and the loop goes on. While
  the call of the gateway is pending the driver does nothing.
\<close>

definition iteration :: "'w env \<Rightarrow> 'w driver_state \<Rightarrow> control \<times> 'w driver_state" where
  "iteration e s0 =
     (let s = s0\<lparr>stepCount := stepCount s0 + 1\<rparr>;
          prompt = join_with [CHR 0x0A] (messages s);
          s = emit (ModelCall prompt) s
      in case generateContent e prompt of
           Pending \<Rightarrow> (Hang, s)
         | Settled None \<Rightarrow> (Break, emit UnexpectedError s)
         | Settled (Some response) \<Rightarrow>
             (case parse e response of
                None \<Rightarrow> (Break, emit (ParseErrorReported response) s)
              | Some step \<Rightarrow>
                  if logStep_throws step then (Break, emit UnexpectedError s)
                  else
                    (let s = push_message response (emit (StepLogged step) s)
                     in if get_prop step ''type'' = Some (JStr ''action'')
                        then action_branch e step s
                        else if get_prop step ''type'' = Some (JStr ''output'')
                        then (Break, emit Completed s)
                        else (Continue, s))))"

lemma stepCount_emit [simp]: "stepCount (emit ev s) = stepCount s"
  by (simp add: emit_def)

lemma stepCount_push_message [simp]: "stepCount (push_message m s) = stepCount s"
  by (simp add: push_message_def)

lemma stepCount_attempt_action [simp]: "stepCount (snd (attempt_action e step s)) = stepCount s"
  by (simp add: attempt_action_def Let_def split: option.splits awaited.splits prod.splits)

lemma stepCount_action_branch [simp]: "stepCount (snd (action_branch e step s)) = stepCount s"
proof -
  obtain res s1 where a: "attempt_action e step s = (res, s1)"
    by (cases "attempt_action e step s")
  then have "stepCount s1 = stepCount s"
    using stepCount_attempt_action [of e step s] by simp
  with a show ?thesis
    by (simp add: action_branch_def Let_def split: sum.splits awaited.splits)
qed

lemma stepCount_iteration [simp]: "stepCount (snd (iteration e s)) = stepCount s + 1"
  by (simp add: iteration_def Let_def split: option.splits awaited.splits)

text \<open>
  How a turn ends: the driver function returns, with the state it leaves, or it is
  blocked for ever in an \<^verbatim>\<open>await\<close>, with the state it has reached.
\<close>

datatype 'w run = Returned "'w driver_state" | Blocked "'w driver_state"

fun state_of :: "'w run \<Rightarrow> 'w driver_state" where
  "state_of (Returned s) = s"
| "state_of (Blocked s) = s"


text \<open>The loop, and the test that follows it. \<open>mx\<close> is the source's \<^verbatim>\<open>maxSteps\<close>.\<close>

function loop :: "'w env \<Rightarrow> nat \<Rightarrow> 'w driver_state \<Rightarrow> 'w run" where
  "loop e mx s =
     (if stepCount s < mx then
        (case iteration e s of
           (Continue, s') \<Rightarrow> loop e mx s'
         | (Break, s') \<Rightarrow> Returned s'
         | (Hang, s') \<Rightarrow> Blocked s')
      else Returned s)"
  by pat_completeness auto
termination
proof (relation "measure (\<lambda>(e, mx, s). mx - stepCount s)")
  show "wf (measure (\<lambda>(e, mx, s). mx - stepCount s))" by simp
next
  fix e :: "'w env" and mx s x1 and s' :: "'w driver_state"
  assume lt: "stepCount s < mx" and it: "(x1, s') = iteration e s"
  have "stepCount s' = stepCount s + 1"
    using stepCount_iteration [of e s] it [symmetric] by simp
  with lt show "((e, mx, s'), (e, mx, s)) \<in> measure (\<lambda>(e, mx, s). mx - stepCount s)"
    by simp
qed

declare loop.simps [simp del]

fun after_loop :: "nat \<Rightarrow> 'w run \<Rightarrow> 'w run" where
  "after_loop mx (Returned s) =
     Returned (if stepCount s \<ge> mx then emit MaxStepsReached s else s)"
| "after_loop mx (Blocked s) = Blocked s"

definition run :: "'w env \<Rightarrow> nat \<Rightarrow> string \<Rightarrow> 'w \<Rightarrow> 'w run" where
  "run e mx prompt w =
     after_loop mx
       (loop e mx
          \<lparr>messages = [stringify e (JObj [(''type'', JStr ''user''), (''prompt'', JStr prompt)])],
           stepCount = 0, world = w, trace = []\<rparr>)"


definition maxSteps :: nat where
  "maxSteps = 20"

definition executeCommand :: "'w env \<Rightarrow> string \<Rightarrow> json \<Rightarrow> 'w \<Rightarrow> 'w run" where
  "executeCommand e command options w =
     run e maxSteps
       (''Execute command: '' @ command @ '' with options: '' @ stringify e options) w"

definition handleAIRequest :: "'w env \<Rightarrow> string \<Rightarrow> 'w \<Rightarrow> 'w run" where
  "handleAIRequest e msg w = run e maxSteps msg w"


section \<open>Notions of the specification\<close>

text \<open>
  The number of non-overlapping occurrences of \<open>sep\<close> in a text, counted from the
  left: after an occurrence the count resumes behind it.
\<close>

fun occurrences :: "string \<Rightarrow> string \<Rightarrow> nat" where
  "occurrences sep [] = 0"
| "occurrences sep (c # s) =
     (if prefix sep (c # s) then 1 + occurrences sep (drop (length sep - 1) s)
      else occurrences sep s)"

text \<open>
  The files search and replace is about: the regular files below a directory that can
  be read, whose extension passes the filter, outside every excluded directory, each
  with its path below the root and its text, in the order of the walk.
\<close>

fun eligible :: "replace_config \<Rightarrow> path \<Rightarrow> node \<Rightarrow> (path \<times> string) list"
and eligible_entries ::
  "replace_config \<Rightarrow> path \<Rightarrow> (string \<times> node) list \<Rightarrow> (path \<times> string) list"
where
  "eligible c p (Dir es) = eligible_entries c p es"
| "eligible c p (File f) = []"
| "eligible c p Unreadable = []"
| "eligible c p (Other s) = []"
| "eligible_entries c p [] = []"
| "eligible_entries c p ((name, n) # rest) =
     (case n of
        File f \<Rightarrow>
          if (fileTypes c = [] \<or> extname name \<in> set (fileTypes c)) \<and> file_readable f
          then [(p @ [name], file_content f)] else []
      | Other s \<Rightarrow> []
      | _ \<Rightarrow> if name \<in> set (excludeDirs c) then [] else eligible c (p @ [name]) n)
     @ eligible_entries c p rest"

text \<open>The eligible files with at least one occurrence of the search text, each with its
  count, and the line a dry run reports for one of them.\<close>

definition hits :: "replace_config \<Rightarrow> (path \<times> string) list \<Rightarrow> (path \<times> nat) list" where
  "hits c fs = filter (\<lambda>(q, k). k > 0) (map (\<lambda>(q, s). (q, occurrences (searchText c) s)) fs)"

definition report :: "location \<Rightarrow> (path \<times> nat) \<Rightarrow> change" where
  "report l h = \<lparr>ch_file = relative (cwd l) (absolutePath l @ fst h), ch_matches = snd h,
                 ch_replaced = False\<rparr>"

definition tally :: "location \<Rightarrow> (path \<times> nat) list \<Rightarrow> replace_results \<Rightarrow> replace_results" where
  "tally l hs r = r\<lparr>filesProcessed := filesProcessed r + length hs,
                    matchesFound := matchesFound r + sum_list (map snd hs),
                    changes := changes r @ map (report l) hs\<rparr>"

text \<open>The guard \<^verbatim>\<open>!dryRun && replaceText !== undefined\<close> is false.\<close>

definition dry :: "replace_config \<Rightarrow> bool" where
  "dry c = (dryRun c \<or> replaceText c = None)"

text \<open>
  The glob of the specification: the star stands for any run of characters, every other
  character of the pattern for itself, and the pattern has to cover the whole name.
  \<open>spec_matches\<close> is the matcher the specification describes from it.
\<close>

fun glob :: "string \<Rightarrow> string \<Rightarrow> bool" where
  "glob [] s = (s = [])"
| "glob (p # ps) [] = (p = CHR ''*'' \<and> glob ps [])"
| "glob (p # ps) (c # s) =
     (if p = CHR ''*'' then glob ps (c # s) \<or> glob (p # ps) s
      else p = c \<and> glob ps s)"

definition spec_matches :: "string \<Rightarrow> string \<Rightarrow> string list \<Rightarrow> bool" where
  "spec_matches name pat types =
     ((if CHR ''*'' \<in> set pat then glob pat name else sublist pat name) \<or>
      (types \<noteq> [] \<and> extname name \<in> set types))"

text \<open>A pattern whose only syntax character is the star, and a name without a line
  terminator.\<close>

definition plain_glob :: "string \<Rightarrow> bool" where
  "plain_glob pat = (\<forall>c\<in>set pat. c \<in> set syntax_chars \<longrightarrow> c = CHR ''*'')"

definition one_line :: "string \<Rightarrow> bool" where
  "one_line s = (\<forall>c\<in>set s. c \<noteq> CHR 0x0A \<and> c \<noteq> CHR 0x0D)"

fun token :: "char \<Rightarrow> piece" where
  "token c = (if c = CHR ''*'' then Star AnyChar else One (Lit c))"

text \<open>The entries of the root directory.\<close>

definition children :: "node \<Rightarrow> (string \<times> node) list" where
  "children n = (case n of Dir es \<Rightarrow> es | _ \<Rightarrow> [])"

text \<open>No recorded entry is deeper than \<open>maxDepth\<close>.\<close>

definition depth_ok :: "browse_config \<Rightarrow> browse_results \<Rightarrow> bool" where
  "depth_ok c r = ((\<forall>e\<in>set (files r). int (f_depth e) \<le> maxDepth c) \<and>
                   (\<forall>e\<in>set (directories r). int (d_depth e) \<le> maxDepth c))"

text \<open>Every recorded entry is an entry of \<open>es\<close>, at depth 0, its path its name.\<close>

definition only_children :: "(string \<times> node) list \<Rightarrow> browse_results \<Rightarrow> bool" where
  "only_children es r =
     ((\<forall>e\<in>set (files r). f_depth e = 0 \<and> f_path e = [f_name e] \<and> f_name e \<in> fst ` set es) \<and>
      (\<forall>e\<in>set (directories r).
          d_depth e = 0 \<and> d_path e = [d_name e] \<and> d_name e \<in> fst ` set es))"

text \<open>What a pass over the entries \<open>es\<close> of the directory \<open>p\<close> at \<open>depth\<close> adds to the
  results when it does not descend.\<close>

definition level ::
  "path \<Rightarrow> nat \<Rightarrow> (string \<times> node) list \<Rightarrow> browse_results \<Rightarrow> browse_results \<Rightarrow> bool" where
  "level p depth es r r' =
     ((\<forall>e\<in>set (files r'). e \<in> set (files r) \<or>
          (f_depth e = depth \<and> f_path e = p @ [f_name e] \<and> f_name e \<in> fst ` set es)) \<and>
      (\<forall>e\<in>set (directories r'). e \<in> set (directories r) \<or>
          (d_depth e = depth \<and> d_path e = p @ [d_name e] \<and> d_name e \<in> fst ` set es)))"

text \<open>
  A path none of whose components is an excluded name, and the results of the two
  walkers in which no excluded directory shows: every recorded directory has a clean
  path, every recorded file lies in a directory with a clean path, and every directory
  read has a clean path. The finder records the path of a file from the working
  directory; the path \<open>q\<close> of its directory below the root is the clean one.
\<close>

definition clean :: "string list \<Rightarrow> path \<Rightarrow> bool" where
  "clean excl q = (\<forall>x\<in>set q. x \<notin> set excl)"

definition browse_pruned :: "browse_config \<Rightarrow> browse_results \<Rightarrow> bool" where
  "browse_pruned c r =
     ((\<forall>e\<in>set (directories r). clean (excludeDirs c) (d_path e)) \<and>
      (\<forall>e\<in>set (files r). clean (excludeDirs c) (butlast (f_path e))) \<and>
      (\<forall>q\<in>set (reads r). clean (excludeDirs c) q))"

definition find_pruned :: "find_config \<Rightarrow> location \<Rightarrow> find_results \<Rightarrow> bool" where
  "find_pruned c l r =
     ((\<forall>e\<in>set (found r).
          \<exists>q. fe_path e = relative (cwd l) (absolutePath l @ q @ [fe_name e]) \<and>
              clean (excludeDirs c) q) \<and>
      (\<forall>q\<in>set (find_reads r). clean (excludeDirs c) q))"

text \<open>
  Counting the model calls and the tool calls of a trace; the steps of the wire format
  (a plan, an action or an output, with its text a string); a gateway that answers every
  prompt with a valid step that is not an output; a registry every call of whose tools
  settles; the state at the start of a turn; an action step.
\<close>

fun is_model_call :: "event \<Rightarrow> bool" where
  "is_model_call (ModelCall p) = True"
| "is_model_call ev = False"

fun is_tool_call :: "event \<Rightarrow> bool" where
  "is_tool_call (ToolCall k i) = True"
| "is_tool_call ev = False"

definition model_calls :: "event list \<Rightarrow> nat" where
  "model_calls t = length (filter is_model_call t)"

definition tool_calls :: "event list \<Rightarrow> nat" where
  "tool_calls t = length (filter is_tool_call t)"




definition initial :: "'w env \<Rightarrow> string \<Rightarrow> 'w \<Rightarrow> 'w driver_state" where
  "initial e prompt w =
     \<lparr>messages = [stringify e (JObj [(''type'', JStr ''user''), (''prompt'', JStr prompt)])],
      stepCount = 0, world = w, trace = []\<rparr>"

definition action_step :: "string \<Rightarrow> json" where
  "action_step key =
     JObj [(''type'', JStr ''action''), (''function'', JStr key), (''input'', JNull)]"



subsection \<open>Inputs for the examples\<close>

definition aaa_file :: regular_file where
  "aaa_file = \<lparr>file_stat = Some \<lparr>st_size = 3, st_mtime = 0\<rparr>, file_content = ''aaa'',
               file_readable = True, file_writable = True\<rparr>"

definition aaa_tree :: node where
  "aaa_tree = Dir [(''f.js'', File aaa_file)]"

definition here :: location where
  "here = \<lparr>cwd = [''home'', ''project''], absolutePath = [''home'', ''project'']\<rparr>"

definition a_to_b :: "bool option \<Rightarrow> replace_input" where
  "a_to_b d = \<lparr>ri_searchText = Some ''a'', ri_replaceText = Some ''b'', ri_fileTypes = None,
               ri_excludeDirs = None, ri_dryRun = d\<rparr>"

definition count_a :: replace_input where
  "count_a = \<lparr>ri_searchText = Some ''a'', ri_replaceText = None, ri_fileTypes = None,
              ri_excludeDirs = None, ri_dryRun = Some False\<rparr>"

definition plain_file :: "string \<Rightarrow> node" where
  "plain_file text = File \<lparr>file_stat = Some \<lparr>st_size = length text, st_mtime = 0\<rparr>,
                           file_content = text, file_readable = True, file_writable = True\<rparr>"

definition project_tree :: node where
  "project_tree =
     Dir [(''src'', Dir [(''app.js'', plain_file ''let a''),
                        (''lib'', Dir [(''util.js'', plain_file ''x'')])]),
          (''node_modules'', Dir [(''dep'', Dir [(''index.js'', plain_file ''y'')])]),
          (''readme.md'', plain_file ''hello'')]"

definition browse_all :: "int \<Rightarrow> browse_input" where
  "browse_all d = \<lparr>bi_recursive = Some True, bi_maxDepth = Some d, bi_includeHidden = None,
                   bi_fileTypes = None, bi_excludeDirs = None\<rparr>"

text \<open>An engine for the examples, right on the sources that are not regular expressions
  (\<^verbatim>\<open>^.*.c++$\<close> is one: nothing to repeat).\<close>

definition no_engine :: regexp_engine where
  "no_engine source = None"

definition find_pattern :: "string \<Rightarrow> find_input" where
  "find_pattern pat = \<lparr>fi_pattern = Some pat, fi_fileTypes = None, fi_excludeDirs = None,
                        fi_maxDepth = None, fi_includeHidden = None\<rparr>"

definition under_node_modules :: location where
  "under_node_modules = \<lparr>cwd = [''home'', ''project''],
                           absolutePath = [''home'', ''project'', ''node_modules'', ''dep'']\<rparr>"

definition find_js :: find_input where
  "find_js = \<lparr>fi_pattern = Some ''*.js'', fi_fileTypes = None, fi_excludeDirs = None,
              fi_maxDepth = None, fi_includeHidden = None\<rparr>"

text \<open>
  \<^verbatim>\<open>JSON.stringify\<close> for the examples: it is right on values whose strings are ASCII
  with no control character but the line feed. The responses of the example gateways
  follow, with \<^verbatim>\<open>JSON.parse\<close> on them: the two steps parse, the chatty answer does not.
\<close>

fun escape_char :: "char \<Rightarrow> string" where
  "escape_char c =
     (if c = CHR 0x22 then [CHR 0x5C, CHR 0x22]
      else if c = CHR 0x5C then [CHR 0x5C, CHR 0x5C]
      else if c = CHR 0x0A then [CHR 0x5C, CHR ''n'']
      else [c])"

definition quote :: "string \<Rightarrow> string" where
  "quote s = [CHR 0x22] @ concat (map escape_char s) @ [CHR 0x22]"

fun render :: "json \<Rightarrow> string" where
  "render JNull = ''null''"
| "render (JBool b) = (if b then ''true'' else ''false'')"
| "render (JNum s) = s"
| "render (JStr s) = quote s"
| "render (JArr xs) = ''['' @ join_with '','' (map render xs) @ '']''"
| "render (JObj fs) =
     ''{'' @ join_with '','' (map (\<lambda>kv. quote (fst kv) @ '':'' @ render (snd kv)) fs) @ ''}''"

definition plan_step :: json where
  "plan_step = JObj [(''type'', JStr ''plan''), (''plan'', JStr ''look around'')]"

definition command_step :: "string \<Rightarrow> json" where
  "command_step text =
     JObj [(''type'', JStr ''action''), (''function'', JStr ''executeCommand''),
           (''input'', JStr text)]"

definition plan_text :: string where
  \<open>plan_text = ''{"type":"plan","plan":"look around"}''\<close>

definition toString_text :: string where
  \<open>toString_text = ''{"type":"action","function":"toString","input":null}''\<close>

definition sleep_text :: string where
  \<open>sleep_text = ''{"type":"action","function":"executeCommand","input":"sleep infinity"}''\<close>

definition false_text :: string where
  \<open>false_text = ''{"type":"action","function":"executeCommand","input":"false"}''\<close>

definition chatty_text :: string where
  "chatty_text = ''Sure! Here is the plan: look around''"

definition user_hi :: string where
  \<open>user_hi = ''{"type":"user","prompt":"hi"}''\<close>

definition known_texts :: "string \<Rightarrow> json option" where
  "known_texts =
     map_of [(plan_text, plan_step), (toString_text, action_step ''toString''),
             (sleep_text, command_step ''sleep infinity''),
             (false_text, command_step ''false'')]"

text \<open>
  The tool \<^verbatim>\<open>executeCommand\<close> of \<^verbatim>\<open>src/tools.js\<close>, over a shell: \<open>sh\<close> is what
  \<^verbatim>\<open>await execAsync(command, ...)\<close> gets for a command in a state of the world, the two
  streams of a command that exits with 0, or the message and the \<^verbatim>\<open>stderr\<close> of the
  error \<^verbatim>\<open>exec\<close> rejects with, or nothing as long as the command runs (the call sets
  no timeout). \<open>fr\<close> are the frames of the tool's \<^verbatim>\<open>throw\<close>. The two template literals
  with \<^verbatim>\<open>${command}\<close> throw a \<^verbatim>\<open>TypeError\<close> when the command cannot be converted to a
  string; the first one is inside the \<^verbatim>\<open>try\<close>, so that the second one is evaluated too.
\<close>

datatype exec_outcome = Exited string string | Rejected string string

definition executeCommand_fn ::
  "(json option \<Rightarrow> 'w \<Rightarrow> (exec_outcome \<times> 'w) awaited) \<Rightarrow> string \<Rightarrow> 'w tool" where
  "executeCommand_fn sh fr command w =
     (case sh command w of
        Pending \<Rightarrow> Pending
      | Settled (Exited out err, w') \<Rightarrow>
          if err \<noteq> [] \<and> out = []
          then Settled (Inr (''Command executed with warnings:'' @ [CHR 0x0A] @ err), w')
          else if out \<noteq> [] then Settled (Inr out, w')
          else if to_string_opt_throws command
          then Settled (Inl (new_error ''TypeError'' not_a_primitive_message fr), w')
          else Settled (Inr (''Command '' @ [CHR 0x27] @ to_string_opt command @ [CHR 0x27] @
                             '' executed successfully''), w')
      | Settled (Rejected msg err, w') \<Rightarrow>
          if to_string_opt_throws command
          then Settled (Inl (new_error ''TypeError'' not_a_primitive_message fr), w')
          else Settled (Inl (new_error ''Error''
                          (''Command failed: '' @ to_string_opt command @ [CHR 0x0A] @
                           ''Error: '' @ msg @ [CHR 0x0A] @ ''Stderr: '' @ err) fr), w'))"

text \<open>
  Two shells. In both \<^verbatim>\<open>false\<close> exits with 1, so that \<^verbatim>\<open>exec\<close> rejects, and any other
  command exits with 0 and prints nothing; in the second \<^verbatim>\<open>sleep infinity\<close> never
  exits.
\<close>

definition calm_shell :: "json option \<Rightarrow> unit \<Rightarrow> (exec_outcome \<times> unit) awaited" where
  "calm_shell command w =
     (if command = Some (JStr ''false'')
      then Settled (Rejected (''Command failed: false'' @ [CHR 0x0A]) [], w)
      else Settled (Exited [] [], w))"



text \<open>
  The registry of the examples has the property names of the source's \<^verbatim>\<open>tools\<close>:
  \<^verbatim>\<open>executeCommand\<close> is the tool above, and the other tools, which no example calls,
  have a stand-in.
\<close>

definition stand_in :: "unit tool" where
  "stand_in inp w = Settled (Inr ''done'', w)"

definition tool_frames :: string where
  "tool_frames = [CHR 0x0A] @ ''    at Object.fn (tools.js:25:15)''"

definition driver_frames :: string where
  "driver_frames = [CHR 0x0A] @ ''    at handleAIRequest (cli.js:501:19)''"

definition source_registry ::
  "(json option \<Rightarrow> unit \<Rightarrow> (exec_outcome \<times> unit) awaited) \<Rightarrow> string \<Rightarrow> unit tool option" where
  "source_registry sh key =
     (if key = ''executeCommand'' then Some (executeCommand_fn sh tool_frames)
      else if key \<in> set tool_names then Some stand_in
      else None)"

text \<open>
  The gateways of the examples give one answer to every prompt. \<open>office\<close> has the calm
  shell; \<open>sleeper\<close> is asked for \<^verbatim>\<open>sleep infinity\<close> on the other one.
\<close>

definition office :: "string \<Rightarrow> unit env" where
  "office reply = \<lparr>generateContent = (\<lambda>prompt. Settled (Some reply)), parse = known_texts,
                   stringify = render, registry = source_registry calm_shell,
                   frames = driver_frames\<rparr>"


definition turn_start :: "unit driver_state" where
  "turn_start = \<lparr>messages = [user_hi], stepCount = 0, world = (), trace = []\<rparr>"

section \<open>Search and replace: counting and writing\<close>

lemma length_split_from: "length (split_from sep acc s) = 1 + occurrences sep s"
  by (induction sep acc s rule: split_from.induct) auto

lemma split_str_count:
  "sep \<noteq> [] \<Longrightarrow> int (length (split_str s sep)) - 1 = int (occurrences sep s)"
  by (simp add: split_str_def length_split_from)

lemma tally_Nil [simp]: "tally l [] r = r"
  by (simp add: tally_def)

lemma tally_append [simp]: "tally l (hs @ hs') r = tally l hs' (tally l hs r)"
  by (simp add: tally_def)

lemma hits_append [simp]: "hits c (xs @ ys) = hits c xs @ hits c ys"
  by (simp add: hits_def)

lemma hits_Nil [simp]: "hits c [] = []"
  by (simp add: hits_def)

lemma relative_self [simp]: "relative xs (xs @ ys) = ys"
  by (induction xs) auto

lemma processFile_dry:
  assumes "dry c" and "searchText c \<noteq> []"
  shows "processFile c l (p @ [name]) name n r =
         Some (tally l (hits c (case n of
                 File f \<Rightarrow>
                   if (fileTypes c = [] \<or> extname name \<in> set (fileTypes c)) \<and> file_readable f
                   then [(p @ [name], file_content f)] else []
               | _ \<Rightarrow> [])) r, n)"
  using assms
  by (cases n)
     (auto simp: processFile_def dry_def Let_def split_str_count hits_def tally_def report_def)

text \<open>Without the write, the walk returns the tree it was given and adds to the results
  one line for each eligible file with an occurrence.\<close>

lemma process_dry:
  "dry c \<Longrightarrow> searchText c \<noteq> [] \<Longrightarrow>
     processDirectory c l p n r = Some (tally l (hits c (eligible c p n)) r, n)"
  "dry c \<Longrightarrow> searchText c \<noteq> [] \<Longrightarrow>
     processEntries c l p es r = Some (tally l (hits c (eligible_entries c p es)) r, es)"
proof (induction c l p n r and c l p es r rule: processDirectory_processEntries.induct)
  case (6 c l p name n rest r)
  show ?case
  proof (cases "isDirectory n \<and> name \<notin> set (excludeDirs c)")
    case True
    with 6 show ?thesis by (cases n) auto
  next
    case False
    with 6 show ?thesis
      by (cases n) (auto simp: processFile_dry)
  qed
qed auto

lemma globalSearchReplace_dry:
  assumes "dry (replace_defaults inp)"
  shows "case globalSearchReplace inp l root of
           None \<Rightarrow> False
         | Some (Inl msg) \<Rightarrow> or_default (ri_searchText inp) [] = []
         | Some (Inr (r, root')) \<Rightarrow>
             root' = root \<and> writes r = [] \<and> replacements r = 0 \<and>
             changes r = map (report l)
               (hits (replace_defaults inp) (eligible (replace_defaults inp) [] root)) \<and>
             matchesFound r = sum_list (map ch_matches (changes r)) \<and>
             filesProcessed r = length (changes r)"
proof (cases "searchText (replace_defaults inp) = []")
  case True
  then show ?thesis
    by (simp add: globalSearchReplace_def replace_defaults_def)
next
  case False
  have "ch_matches \<circ> report l = snd"
    by (auto simp: report_def)
  with False assms show ?thesis
    by (simp add: globalSearchReplace_def process_dry(1) tally_def no_results_def)
qed

text \<open>
  Claim C5. A directory holds one eligible file, readable and writable, with the text
  \<^verbatim>\<open>aaa\<close>. Search and replace with \<^verbatim>\<open>searchText = "a"\<close>, \<^verbatim>\<open>replaceText = "b"\<close> and
  \<^verbatim>\<open>dryRun = false\<close> returns, leaves the file with the text \<^verbatim>\<open>bbb\<close> through one
  write, and reports \<^verbatim>\<open>matchesFound = 3\<close> and \<^verbatim>\<open>replacements = 3\<close>; the match count
  is the number of non-overlapping occurrences of the search text in the file.
\<close>

theorem replace_aaa:
  assumes "file_content f = ''aaa''" and "file_readable f" and "file_writable f"
    and "ri_searchText inp = Some ''a''" and "ri_replaceText inp = Some ''b''"
    and "ri_dryRun inp = Some False"
    and "fileTypes (replace_defaults inp) = [] \<or>
         extname name \<in> set (fileTypes (replace_defaults inp))"
  shows "\<exists>r. globalSearchReplace inp l (Dir [(name, File f)]) =
               Some (Inr (r, Dir [(name, File (f\<lparr>file_content := ''bbb''\<rparr>))])) \<and>
             matchesFound r = 3 \<and> replacements r = 3 \<and>
             matchesFound r = occurrences ''a'' (file_content f) \<and>
             filesProcessed r = 1 \<and> writes r = [([name], ''bbb'')]"
  using assms
  by (auto simp: globalSearchReplace_def replace_defaults_def or_default_def
      processFile_def split_str_def replace_global_def syntax_chars_def no_results_def Let_def)

theorem replace_aaa_witness:
  "file_content aaa_file = ''aaa'' \<and> file_readable aaa_file \<and> file_writable aaa_file \<and>
   extname ''f.js'' \<in> set (fileTypes (replace_defaults (a_to_b (Some False)))) \<and>
   (\<exists>r. globalSearchReplace (a_to_b (Some False)) here (Dir [(''f.js'', File aaa_file)]) =
          Some (Inr (r, Dir [(''f.js'', File (aaa_file\<lparr>file_content := ''bbb''\<rparr>))])) \<and>
        matchesFound r = 3 \<and> replacements r = 3 \<and>
        matchesFound r = occurrences ''a'' (file_content aaa_file) \<and>
        filesProcessed r = 1 \<and> writes r = [([''f.js''], ''bbb'')])"
proof (intro conjI)
  show c: "file_content aaa_file = ''aaa''" and r: "file_readable aaa_file"
    and w: "file_writable aaa_file"
    by (simp_all add: aaa_file_def)
  show e: "extname ''f.js'' \<in> set (fileTypes (replace_defaults (a_to_b (Some False))))"
    by (simp add: a_to_b_def replace_defaults_def or_default_def default_fileTypes_def
        extname_def)
  show "\<exists>r. globalSearchReplace (a_to_b (Some False)) here (Dir [(''f.js'', File aaa_file)]) =
          Some (Inr (r, Dir [(''f.js'', File (aaa_file\<lparr>file_content := ''bbb''\<rparr>))])) \<and>
        matchesFound r = 3 \<and> replacements r = 3 \<and>
        matchesFound r = occurrences ''a'' (file_content aaa_file) \<and>
        filesProcessed r = 1 \<and> writes r = [([''f.js''], ''bbb'')]"
    by (rule replace_aaa [OF c r w _ _ _ disjI2 [OF e]]) (simp_all add: a_to_b_def)
qed

text \<open>
  Claim C6. With \<^verbatim>\<open>dryRun = true\<close> search and replace returns for every tree (or throws
  for want of a search text, before it reads anything). It performs no write and the
  tree after the call is the tree before it. It reports one line for each eligible file
  in which the search text occurs, with the number of occurrences, marked as not
  replaced; \<^verbatim>\<open>matchesFound\<close> is the sum of these numbers, \<^verbatim>\<open>filesProcessed\<close> the
  number of lines, and \<^verbatim>\<open>replacements\<close> is 0.
\<close>

theorem dry_run_writes_nothing:
  assumes "ri_dryRun inp = Some True"
  shows "case globalSearchReplace inp l root of
           None \<Rightarrow> False
         | Some (Inl msg) \<Rightarrow> or_default (ri_searchText inp) [] = []
         | Some (Inr (r, root')) \<Rightarrow>
             root' = root \<and> writes r = [] \<and> replacements r = 0 \<and>
             changes r = map (report l)
               (hits (replace_defaults inp) (eligible (replace_defaults inp) [] root)) \<and>
             matchesFound r = sum_list (map ch_matches (changes r)) \<and>
             filesProcessed r = length (changes r)"
proof -
  from assms have "dry (replace_defaults inp)"
    by (simp add: dry_def replace_defaults_def or_default_def)
  then show ?thesis by (rule globalSearchReplace_dry)
qed

theorem dry_run_writes_nothing_witness:
  "ri_dryRun (a_to_b (Some True)) = Some True \<and>
   globalSearchReplace (a_to_b (Some True)) here aaa_tree =
     Some (Inr (\<lparr>filesProcessed = 1, matchesFound = 3, replacements = 0,
                 changes = [\<lparr>ch_file = [''f.js''], ch_matches = 3, ch_replaced = False\<rparr>],
                 writes = []\<rparr>, aaa_tree))"
proof -
  have d: "ri_dryRun (a_to_b (Some True)) = Some True"
    by (simp add: a_to_b_def)
  have s: "or_default (ri_searchText (a_to_b (Some True))) [] \<noteq> []"
    by (simp add: a_to_b_def or_default_def)
  have h: "hits (replace_defaults (a_to_b (Some True)))
             (eligible (replace_defaults (a_to_b (Some True))) [] aaa_tree) = [([''f.js''], 3)]"
    by (simp add: a_to_b_def replace_defaults_def or_default_def aaa_tree_def aaa_file_def
        default_fileTypes_def extname_def hits_def)
  have "globalSearchReplace (a_to_b (Some True)) here aaa_tree =
     Some (Inr (\<lparr>filesProcessed = 1, matchesFound = 3, replacements = 0,
                 changes = [\<lparr>ch_file = [''f.js''], ch_matches = 3, ch_replaced = False\<rparr>],
                 writes = []\<rparr>, aaa_tree))"
    using dry_run_writes_nothing [OF d, where l = here and root = aaa_tree] s
    by (auto simp: h report_def here_def split: option.splits sum.splits)
  with d show ?thesis by simp
qed

text \<open>
  Claim C10. When the input of search and replace leaves out \<^verbatim>\<open>dryRun\<close>, or leaves out
  \<^verbatim>\<open>replaceText\<close>, the tool behaves as a dry run: it returns (or throws for want of a
  search text), writes no file and leaves the tree as it was, reports the match counts
  of the eligible files, and leaves \<^verbatim>\<open>replacements\<close> at 0 whatever it found.
\<close>

theorem omitted_fields_mean_dry_run:
  assumes "ri_dryRun inp = None \<or> ri_replaceText inp = None"
  shows "case globalSearchReplace inp l root of
           None \<Rightarrow> False
         | Some (Inl msg) \<Rightarrow> or_default (ri_searchText inp) [] = []
         | Some (Inr (r, root')) \<Rightarrow>
             root' = root \<and> writes r = [] \<and> replacements r = 0 \<and>
             changes r = map (report l)
               (hits (replace_defaults inp) (eligible (replace_defaults inp) [] root)) \<and>
             matchesFound r = sum_list (map ch_matches (changes r)) \<and>
             filesProcessed r = length (changes r)"
proof -
  from assms have "dry (replace_defaults inp)"
    by (auto simp: dry_def replace_defaults_def or_default_def)
  then show ?thesis by (rule globalSearchReplace_dry)
qed

theorem omitted_fields_mean_dry_run_witness:
  "ri_dryRun (a_to_b None) = None \<and>
   globalSearchReplace (a_to_b None) here aaa_tree =
     Some (Inr (\<lparr>filesProcessed = 1, matchesFound = 3, replacements = 0,
                 changes = [\<lparr>ch_file = [''f.js''], ch_matches = 3, ch_replaced = False\<rparr>],
                 writes = []\<rparr>, aaa_tree)) \<and>
   ri_dryRun count_a = Some False \<and> ri_replaceText count_a = None \<and>
   globalSearchReplace count_a here aaa_tree =
     Some (Inr (\<lparr>filesProcessed = 1, matchesFound = 3, replacements = 0,
                 changes = [\<lparr>ch_file = [''f.js''], ch_matches = 3, ch_replaced = False\<rparr>],
                 writes = []\<rparr>, aaa_tree))"
proof -
  have d: "ri_dryRun (a_to_b None) = None" and f: "ri_dryRun count_a = Some False"
    and t: "ri_replaceText count_a = None"
    by (simp_all add: a_to_b_def count_a_def)
  have s: "or_default (ri_searchText (a_to_b None)) [] \<noteq> []"
    "or_default (ri_searchText count_a) [] \<noteq> []"
    by (simp_all add: a_to_b_def count_a_def or_default_def)
  have h: "hits (replace_defaults (a_to_b None))
             (eligible (replace_defaults (a_to_b None)) [] aaa_tree) = [([''f.js''], 3)]"
    "hits (replace_defaults count_a)
             (eligible (replace_defaults count_a) [] aaa_tree) = [([''f.js''], 3)]"
    by (simp_all add: a_to_b_def count_a_def replace_defaults_def or_default_def aaa_tree_def
        aaa_file_def default_fileTypes_def extname_def hits_def)
  have 1: "globalSearchReplace (a_to_b None) here aaa_tree =
     Some (Inr (\<lparr>filesProcessed = 1, matchesFound = 3, replacements = 0,
                 changes = [\<lparr>ch_file = [''f.js''], ch_matches = 3, ch_replaced = False\<rparr>],
                 writes = []\<rparr>, aaa_tree))"
    using omitted_fields_mean_dry_run [OF disjI1 [OF d], where l = here and root = aaa_tree] s(1)
    by (auto simp: h report_def here_def split: option.splits sum.splits)
  have 2: "globalSearchReplace count_a here aaa_tree =
     Some (Inr (\<lparr>filesProcessed = 1, matchesFound = 3, replacements = 0,
                 changes = [\<lparr>ch_file = [''f.js''], ch_matches = 3, ch_replaced = False\<rparr>],
                 writes = []\<rparr>, aaa_tree))"
    using omitted_fields_mean_dry_run [OF disjI2 [OF t], where l = here and root = aaa_tree] s(2)
    by (auto simp: h report_def here_def split: option.splits sum.splits)
  from d f t 1 2 show ?thesis by simp
qed

section \<open>The matcher of the finder\<close>

lemma str_includes_sublist: "str_includes s t = sublist t s"
  by (induction s) (auto simp: sublist_Cons_right)

lemma replace_stars_no_star: "replace_stars p \<noteq> CHR ''*'' # t"
  by (cases p) auto

lemma parse_plain: "plain_glob pat \<Longrightarrow> parse_pieces (replace_stars pat) = Some (map token pat)"
proof (induction pat)
  case Nil
  show ?case by simp
next
  case (Cons c pat)
  then have ih: "parse_pieces (replace_stars pat) = Some (map token pat)"
    by (simp add: plain_glob_def)
  show ?case
  proof (cases "c = CHR ''*''")
    case True
    with ih show ?thesis by simp
  next
    case False
    with Cons.prems have c: "c \<notin> set syntax_chars" by (auto simp: plain_glob_def)
    then have d: "c \<noteq> CHR ''.''" by (auto simp: syntax_chars_def)
    show ?thesis
    proof (cases "replace_stars pat")
      case Nil
      with ih have "map token pat = []" by simp
      with False c d Nil show ?thesis by simp
    next
      case (Cons x xs)
      with replace_stars_no_star [of pat xs] have "x \<noteq> CHR ''*''" by auto
      with False c d ih Cons show ?thesis by simp
    qed
  qed
qed

lemma test_glob: "one_line s \<Longrightarrow> test (map token pat) s = glob pat s"
proof (induction pat s rule: glob.induct)
  case (1 s)
  show ?case by simp
next
  case (2 p ps)
  then show ?case by simp
next
  case (3 p ps c s)
  from "3.prems" have s: "one_line s" and c: "c \<noteq> CHR 0x0A \<and> c \<noteq> CHR 0x0D"
    by (auto simp: one_line_def)
  show ?case
  proof (cases "p = CHR ''*''")
    case True
    with 3 s c show ?thesis by auto
  next
    case False
    with 3 s show ?thesis by auto
  qed
qed

text \<open>Where the matcher of the source is the matcher of the specification: on a
  pattern without a star, and on a pattern whose only syntax character is the star
  when the name has no line terminator.\<close>

lemma matchesPattern_substring:
  assumes "CHR ''*'' \<notin> set pat"
  shows "matchesPattern rx pat types name = Some (spec_matches name pat types)"
  using assms
  by (auto simp: matchesPattern_def spec_matches_def str_includes_sublist)

lemma matchesPattern_plain:
  assumes "plain_glob pat" and "one_line name"
  shows "matchesPattern rx pat types name = Some (spec_matches name pat types)"
  using assms
  by (auto simp: matchesPattern_def spec_matches_def RegExp_anchored_def parse_plain test_glob
      str_includes_sublist)

text \<open>The examples of the specification.\<close>

lemma matchesPattern_examples:
  "matchesPattern rx ''*.test.js'' [] ''report.test.js'' = Some True"
  "matchesPattern rx ''*.test.js'' [] ''readme.md'' = Some False"
  "matchesPattern rx ''*'' [''.css''] ''style.css'' = Some True"
  by (simp_all add: matchesPattern_def RegExp_anchored_def syntax_chars_def extname_def)

text \<open>
  Claim C4 says that the matcher returns true exactly when the glob of the
  specification matches (or the substring or extension rule applies), every pattern
  character but the star standing for itself. The source builds a regular expression
  from the pattern and escapes nothing: the dot of \<^verbatim>\<open>*.md\<close> matches any character, so
  the file name \<^verbatim>\<open>cmd\<close> is matched by the source and not by the glob. (The regular
  expression \<^verbatim>\<open>^.*.md$\<close> is one the theory gives a meaning to: the statement holds
  whatever \<open>rx\<close> is.)
\<close>

theorem glob_dot_matches_any_character:
  "matchesPattern rx ''*.md'' [] ''cmd'' = Some True \<and> \<not> spec_matches ''cmd'' ''*.md'' []"
  by (simp add: matchesPattern_def spec_matches_def RegExp_anchored_def syntax_chars_def)

section \<open>The walkers: depth and excluded directories\<close>

lemma depth_ok_push_dir:
  "depth_ok c r \<Longrightarrow> int depth \<le> maxDepth c \<Longrightarrow> depth_ok c (push_dir name p depth r)"
  by (auto simp: depth_ok_def push_dir_def)

lemma depth_ok_push_file:
  "depth_ok c r \<Longrightarrow> int depth \<le> maxDepth c \<Longrightarrow> depth_ok c (push_file c name p depth s r)"
  by (auto simp: depth_ok_def push_file_def)

lemma depth_ok_reads: "depth_ok c (r\<lparr>reads := x\<rparr>) = depth_ok c r"
  by (simp add: depth_ok_def)

lemma scan_depth_ok:
  "depth_ok c r \<Longrightarrow> depth_ok c (scanDirectory c p n depth r)"
  "depth_ok c r \<Longrightarrow> int depth \<le> maxDepth c \<Longrightarrow> depth_ok c (scanEntries c p es depth r)"
proof (induction c p n depth r and c p es depth r rule: scanDirectory_scanEntries.induct)
  case (6 c p name n rest depth r)
  then show ?case
    by (auto simp: depth_ok_push_dir depth_ok_push_file Let_def split: option.splits)
qed (auto simp: depth_ok_reads)

lemma level_refl: "level p depth es r r"
  by (simp add: level_def)

lemma level_step:
  "level p depth rest r1 r' \<Longrightarrow> level p depth [(name, n)] r r1 \<Longrightarrow>
     level p depth ((name, n) # rest) r r'"
  by (fastforce simp: level_def)

lemma level_skip:
  "level p depth rest r r' \<Longrightarrow> level p depth ((name, n) # rest) r r'"
  by (fastforce simp: level_def)

lemma level_push_dir: "level p depth [(name, n)] r (push_dir name (p @ [name]) depth r)"
  by (auto simp: level_def push_dir_def)

lemma level_push_file: "level p depth [(name, n)] r (push_file c name (p @ [name]) depth s r)"
  by (auto simp: level_def push_file_def)

lemma scanEntries_level:
  "\<not> int depth < maxDepth c \<Longrightarrow> level p depth es r (scanEntries c p es depth r)"
proof (induction es arbitrary: r)
  case Nil
  show ?case by (simp add: level_refl)
next
  case (Cons x es)
  obtain name n where x: "x = (name, n)" by (cases x)
  show ?case
    unfolding x using Cons.prems
    by (auto simp: Let_def level_refl split: option.splits
        intro: level_skip [OF Cons.IH] level_step [OF Cons.IH] level_push_dir level_push_file)
qed

lemma browse_only_children:
  assumes "maxDepth (browse_defaults inp) = 0"
  shows "only_children (children root) (browseDirectory inp root)"
proof (cases root)
  case (Dir es)
  have "level [] 0 es (empty_results\<lparr>reads := reads empty_results @ [[]]\<rparr>)
          (scanEntries (browse_defaults inp) [] es 0
             (empty_results\<lparr>reads := reads empty_results @ [[]]\<rparr>))"
    by (rule scanEntries_level) (simp add: assms)
  with Dir assms show ?thesis
    by (simp add: browseDirectory_def children_def only_children_def level_def
        empty_results_def)
qed (simp_all add: browseDirectory_def only_children_def empty_results_def)

text \<open>
  Claim C8. A walk of the browser with \<^verbatim>\<open>maxDepth = 0\<close> and \<^verbatim>\<open>recursive = true\<close>
  records entries of the root directory only, each at depth 0 and under its own name;
  and in every walk, whatever \<^verbatim>\<open>maxDepth\<close> is, the depth of every recorded file and
  directory is at most \<^verbatim>\<open>maxDepth\<close>.
\<close>

theorem browse_depth_bounded:
  "(bi_maxDepth inp = Some 0 \<and> bi_recursive inp = Some True \<longrightarrow>
      only_children (children root) (browseDirectory inp root)) \<and>
   depth_ok (browse_defaults inp) (browseDirectory inp root)"
proof (intro conjI impI)
  assume "bi_maxDepth inp = Some 0 \<and> bi_recursive inp = Some True"
  then have "maxDepth (browse_defaults inp) = 0"
    by (simp add: browse_defaults_def or_default_def)
  then show "only_children (children root) (browseDirectory inp root)"
    by (rule browse_only_children)
next
  have "depth_ok (browse_defaults inp) empty_results"
    by (simp add: depth_ok_def empty_results_def)
  then show "depth_ok (browse_defaults inp) (browseDirectory inp root)"
    unfolding browseDirectory_def by (rule scan_depth_ok(1))
qed

lemma browse_project_tree_0:
  "browseDirectory (browse_all 0) project_tree =
     \<lparr>files = [\<lparr>f_name = ''readme.md'', f_path = [''readme.md''], f_size = 5,
                 f_modified = 0, f_depth = 0, f_extension = ''.md''\<rparr>],
      directories = [\<lparr>d_name = ''src'', d_path = [''src''], d_depth = 0\<rparr>],
      totalFiles = 1, totalDirs = 1, totalSize = 5, reads = [[]]\<rparr>"
  by code_simp

theorem browse_depth_bounded_witness:
  "bi_maxDepth (browse_all 0) = Some 0 \<and> bi_recursive (browse_all 0) = Some True \<and>
   map f_path (files (browseDirectory (browse_all 0) project_tree)) = [[''readme.md'']] \<and>
   map d_path (directories (browseDirectory (browse_all 0) project_tree)) = [[''src'']] \<and>
   only_children (children project_tree) (browseDirectory (browse_all 0) project_tree) \<and>
   depth_ok (browse_defaults (browse_all 0)) (browseDirectory (browse_all 0) project_tree)"
proof -
  have h: "bi_maxDepth (browse_all 0) = Some 0 \<and> bi_recursive (browse_all 0) = Some True"
    by (simp add: browse_all_def)
  from browse_depth_bounded [where inp = "browse_all 0" and root = project_tree] h
  have "only_children (children project_tree) (browseDirectory (browse_all 0) project_tree) \<and>
        depth_ok (browse_defaults (browse_all 0)) (browseDirectory (browse_all 0) project_tree)"
    by blast
  with h show ?thesis
    by (simp add: browse_project_tree_0)
qed

lemma clean_snoc: "clean excl (q @ [x]) = (clean excl q \<and> x \<notin> set excl)"
  by (auto simp: clean_def)

lemma browse_pruned_push_dir:
  "browse_pruned c r \<Longrightarrow> clean (excludeDirs c) p \<Longrightarrow> name \<notin> set (excludeDirs c) \<Longrightarrow>
     browse_pruned c (push_dir name (p @ [name]) depth r)"
  by (auto simp: browse_pruned_def push_dir_def clean_snoc)

lemma browse_pruned_push_file:
  "browse_pruned c r \<Longrightarrow> clean (excludeDirs c) p \<Longrightarrow>
     browse_pruned c (push_file c name (p @ [name]) depth s r)"
  by (auto simp: browse_pruned_def push_file_def)

lemma browse_pruned_read:
  "browse_pruned c r \<Longrightarrow> clean (excludeDirs c) p \<Longrightarrow>
     browse_pruned c (r\<lparr>reads := reads r @ [p]\<rparr>)"
  by (auto simp: browse_pruned_def)

lemma scan_pruned:
  "browse_pruned c r \<Longrightarrow> clean (excludeDirs c) p \<Longrightarrow>
     browse_pruned c (scanDirectory c p n depth r)"
  "browse_pruned c r \<Longrightarrow> clean (excludeDirs c) p \<Longrightarrow>
     browse_pruned c (scanEntries c p es depth r)"
proof (induction c p n depth r and c p es depth r rule: scanDirectory_scanEntries.induct)
  case (6 c p name n rest depth r)
  then show ?case
    by (auto simp: browse_pruned_push_dir browse_pruned_push_file clean_snoc Let_def
        split: option.splits)
qed (auto simp: browse_pruned_read)

lemma find_pruned_read:
  "find_pruned c l r \<Longrightarrow> clean (excludeDirs c) p \<Longrightarrow>
     find_pruned c l (r\<lparr>find_reads := find_reads r @ [p]\<rparr>)"
  by (auto simp: find_pruned_def)

lemma find_pruned_found:
  "find_pruned c l r \<Longrightarrow> clean (excludeDirs c) p \<Longrightarrow>
     find_pruned c l (r\<lparr>found := found r @
        [\<lparr>fe_name = name, fe_path = relative (cwd l) (absolutePath l @ p @ [name]),
          fe_size = a, fe_modified = b, fe_extension = x\<rparr>]\<rparr>)"
  by (auto simp: find_pruned_def)

text \<open>The four ways through the body of the finder's loop.\<close>

lemma searchEntries_hidden:
  "skipHidden c name \<Longrightarrow>
     searchEntries rx c l p ((name, n) # rest) depth r = searchEntries rx c l p rest depth r"
  by simp

lemma searchEntries_excluded:
  "isDirectory n \<Longrightarrow> name \<in> set (excludeDirs c) \<Longrightarrow>
     searchEntries rx c l p ((name, n) # rest) depth r = searchEntries rx c l p rest depth r"
  by simp

lemma searchEntries_dir:
  "\<not> skipHidden c name \<Longrightarrow> isDirectory n \<Longrightarrow> name \<notin> set (excludeDirs c) \<Longrightarrow>
     searchEntries rx c l p ((name, n) # rest) depth r =
       searchEntries rx c l p rest depth (searchDirectory rx c l (p @ [name]) n (depth + 1) r)"
  by simp

lemma searchEntries_file:
  "\<not> skipHidden c name \<Longrightarrow> \<not> isDirectory n \<Longrightarrow>
     searchEntries rx c l p ((name, n) # rest) depth r =
       (case matchesPattern rx (pattern c) (fileTypes c) name of
           None \<Rightarrow> r
         | Some False \<Rightarrow> searchEntries rx c l p rest depth r
         | Some True \<Rightarrow>
             (case stat n of
                None \<Rightarrow> r
              | Some s \<Rightarrow>
                  searchEntries rx c l p rest depth
                    (r\<lparr>found := found r @
                         [\<lparr>fe_name = name,
                           fe_path = relative (cwd l) (absolutePath l @ p @ [name]),
                           fe_size = st_size s, fe_modified = st_mtime s,
                           fe_extension = extname name\<rparr>]\<rparr>)))"
  by simp

lemma search_pruned:
  "find_pruned c l r \<Longrightarrow> clean (excludeDirs c) p \<Longrightarrow>
     find_pruned c l (searchDirectory rx c l p n depth r)"
  "find_pruned c l r \<Longrightarrow> clean (excludeDirs c) p \<Longrightarrow>
     find_pruned c l (searchEntries rx c l p es depth r)"
proof (induction rx c l p n depth r and rx c l p es depth r
    rule: searchDirectory_searchEntries.induct)
  case (6 rx c l p name n rest depth r)
  show ?case
  proof (cases "skipHidden c name")
    case True
    with "6.IH"(1) "6.prems" show ?thesis
      unfolding searchEntries_hidden [OF True] by blast
  next
    case h: False
    show ?thesis
    proof (cases "isDirectory n")
      case d: True
      show ?thesis
      proof (cases "name \<in> set (excludeDirs c)")
        case True
        with "6.IH"(2) h d "6.prems" show ?thesis
          unfolding searchEntries_excluded [OF d True] by blast
      next
        case x: False
        have "clean (excludeDirs c) (p @ [name])"
          using "6.prems"(2) x by (simp add: clean_snoc)
        with "6.IH"(3) h d x "6.prems"(1)
        have "find_pruned c l (searchDirectory rx c l (p @ [name]) n (depth + 1) r)" by blast
        with "6.IH"(4) h d x "6.prems"(2) show ?thesis
          unfolding searchEntries_dir [OF h d x] by blast
      qed
    next
      case f: False
      show ?thesis
      proof (cases "matchesPattern rx (pattern c) (fileTypes c) name")
        case None
        with "6.prems"(1) show ?thesis
          unfolding searchEntries_file [OF h f] by simp
      next
        case (Some m)
        show ?thesis
        proof (cases m)
          case False
          with "6.IH"(6) h f Some "6.prems" have
            "find_pruned c l (searchEntries rx c l p rest depth r)" by blast
          with Some False show ?thesis
            unfolding searchEntries_file [OF h f] by simp
        next
          case True
          show ?thesis
          proof (cases "stat n")
            case None
            with Some True "6.prems"(1) show ?thesis
              unfolding searchEntries_file [OF h f] by simp
          next
            case st: (Some s)
            let ?r = "r\<lparr>found := found r @
                         [\<lparr>fe_name = name,
                           fe_path = relative (cwd l) (absolutePath l @ p @ [name]),
                           fe_size = st_size s, fe_modified = st_mtime s,
                           fe_extension = extname name\<rparr>]\<rparr>"
            have "find_pruned c l ?r"
              using "6.prems"(1,2) by (rule find_pruned_found)
            with "6.IH"(5) h f Some True st "6.prems"(2)
            have "find_pruned c l (searchEntries rx c l p rest depth ?r)" by blast
            with Some True st show ?thesis
              unfolding searchEntries_file [OF h f] by simp
          qed
        qed
      qed
    qed
  qed
qed (auto simp: find_pruned_read)


text \<open>
  Claim C7 says that no walk records an entry whose relative path has the name of an
  excluded directory among its components. The guard of both walkers is
  \<^verbatim>\<open>entry.isDirectory() && excludeDirs.includes(entry.name)\<close>, on the entries the walk
  meets: it does not look at the name of an entry that is not a directory, nor at the
  directories above the root of the walk. With the default \<^verbatim>\<open>excludeDirs\<close>, and the
  other filters letting it pass, a regular file called \<^verbatim>\<open>node_modules\<close> in the root is
  recorded by the browser with the relative path \<^verbatim>\<open>node_modules\<close>. And the finder,
  which records paths from the working directory, started in the directory
  \<^verbatim>\<open>node_modules/dep\<close> of the working directory, records \<^verbatim>\<open>node_modules/dep/index.js\<close>.
\<close>

theorem file_named_as_excluded_directory_is_recorded:
  "files (browseDirectory (browse_all 3) (Dir [(''node_modules'', plain_file ''x'')])) =
     [\<lparr>f_name = ''node_modules'', f_path = [''node_modules''], f_size = 1,
       f_modified = 0, f_depth = 0, f_extension = []\<rparr>] \<and>
   findFiles no_engine find_js under_node_modules (Dir [(''index.js'', plain_file ''y'')]) =
     Inr \<lparr>found = [\<lparr>fe_name = ''index.js'',
                      fe_path = [''node_modules'', ''dep'', ''index.js''], fe_size = 1,
                      fe_modified = 0, fe_extension = ''.js''\<rparr>],
          find_reads = [[]]\<rparr> \<and>
   ''node_modules'' \<in> set (excludeDirs (browse_defaults (browse_all 3))) \<and>
   ''node_modules'' \<in> set (excludeDirs (find_defaults find_js))"
  by code_simp

text \<open>
  Claim C7, amended. For every tree, every \<^verbatim>\<open>excludeDirs\<close> and every pattern, the
  walks of the browser and of the finder never record a directory whose name is in
  \<^verbatim>\<open>excludeDirs\<close>, never record an entry that lies below such a directory (counted
  from the root of the walk), and never read the contents of such a directory: every
  directory handed to \<^verbatim>\<open>readdir\<close> has a path below the root without an excluded name.
  The finder either throws for want of a pattern, before it reads anything, or returns
  such results, whatever the platform makes of the pattern.
\<close>

theorem excluded_directories_pruned:
  "browse_pruned (browse_defaults inp) (browseDirectory inp root) \<and>
   (case findFiles rx finp l root of
      Inl msg \<Rightarrow> pattern (find_defaults finp) = []
    | Inr r \<Rightarrow> find_pruned (find_defaults finp) l r)"
proof (intro conjI)
  have "browse_pruned (browse_defaults inp) empty_results"
    by (simp add: browse_pruned_def empty_results_def)
  then show "browse_pruned (browse_defaults inp) (browseDirectory inp root)"
    unfolding browseDirectory_def by (rule scan_pruned(1)) (simp add: clean_def)
next
  have "find_pruned (find_defaults finp) l \<lparr>found = [], find_reads = []\<rparr>"
    by (simp add: find_pruned_def)
  then have "find_pruned (find_defaults finp) l
               (searchDirectory rx (find_defaults finp) l [] root 0
                  \<lparr>found = [], find_reads = []\<rparr>)"
    by (rule search_pruned(1)) (simp add: clean_def)
  then show "case findFiles rx finp l root of
      Inl msg \<Rightarrow> pattern (find_defaults finp) = []
    | Inr r \<Rightarrow> find_pruned (find_defaults finp) l r"
    by (simp add: findFiles_def)
qed

lemma browse_project_tree_3:
  "browseDirectory (browse_all 3) project_tree =
     \<lparr>files =
        [\<lparr>f_name = ''app.js'', f_path = [''src'', ''app.js''], f_size = 5,
          f_modified = 0, f_depth = 1, f_extension = ''.js''\<rparr>,
         \<lparr>f_name = ''util.js'', f_path = [''src'', ''lib'', ''util.js''],
          f_size = 1, f_modified = 0, f_depth = 2, f_extension = ''.js''\<rparr>,
         \<lparr>f_name = ''readme.md'', f_path = [''readme.md''], f_size = 5,
          f_modified = 0, f_depth = 0, f_extension = ''.md''\<rparr>],
      directories =
        [\<lparr>d_name = ''src'', d_path = [''src''], d_depth = 0\<rparr>,
         \<lparr>d_name = ''lib'', d_path = [''src'', ''lib''], d_depth = 1\<rparr>],
      totalFiles = 3, totalDirs = 2, totalSize = 11,
      reads = [[], [''src''], [''src'', ''lib'']]\<rparr>"
  by code_simp

lemma find_js_project_tree:
  "findFiles no_engine find_js here project_tree =
     Inr \<lparr>found =
          [\<lparr>fe_name = ''app.js'', fe_path = [''src'', ''app.js''],
            fe_size = 5, fe_modified = 0, fe_extension = ''.js''\<rparr>,
           \<lparr>fe_name = ''util.js'', fe_path = [''src'', ''lib'', ''util.js''], fe_size = 1,
            fe_modified = 0, fe_extension = ''.js''\<rparr>],
          find_reads = [[], [''src''], [''src'', ''lib'']]\<rparr>"
  by code_simp

text \<open>The walk goes on when the pattern is not a regular expression: each directory is
  read, and its loop ends at the first file it meets.\<close>

lemma find_cpp_project_tree:
  "findFiles no_engine (find_pattern ''*.c++'') here project_tree =
     Inr \<lparr>found = [], find_reads = [[], [''src'']]\<rparr>"
  by code_simp

theorem excluded_directories_pruned_witness:
  "findFiles no_engine find_js here project_tree =
     Inr \<lparr>found =
          [\<lparr>fe_name = ''app.js'', fe_path = [''src'', ''app.js''],
            fe_size = 5, fe_modified = 0, fe_extension = ''.js''\<rparr>,
           \<lparr>fe_name = ''util.js'', fe_path = [''src'', ''lib'', ''util.js''], fe_size = 1,
            fe_modified = 0, fe_extension = ''.js''\<rparr>],
          find_reads = [[], [''src''], [''src'', ''lib'']]\<rparr> \<and>
   find_pruned (find_defaults find_js) here
     \<lparr>found =
          [\<lparr>fe_name = ''app.js'', fe_path = [''src'', ''app.js''],
            fe_size = 5, fe_modified = 0, fe_extension = ''.js''\<rparr>,
           \<lparr>fe_name = ''util.js'', fe_path = [''src'', ''lib'', ''util.js''], fe_size = 1,
            fe_modified = 0, fe_extension = ''.js''\<rparr>],
          find_reads = [[], [''src''], [''src'', ''lib'']]\<rparr> \<and>
   findFiles no_engine (find_pattern ''*.c++'') here project_tree =
     Inr \<lparr>found = [], find_reads = [[], [''src'']]\<rparr> \<and>
   reads (browseDirectory (browse_all 3) project_tree) = [[], [''src''], [''src'', ''lib'']] \<and>
   map d_path (directories (browseDirectory (browse_all 3) project_tree)) =
     [[''src''], [''src'', ''lib'']] \<and>
   browse_pruned (browse_defaults (browse_all 3)) (browseDirectory (browse_all 3) project_tree)"
proof -
  from excluded_directories_pruned
    [where inp = "browse_all 3" and root = project_tree and finp = find_js and l = here
       and rx = no_engine]
  have "browse_pruned (browse_defaults (browse_all 3))
          (browseDirectory (browse_all 3) project_tree) \<and>
        find_pruned (find_defaults find_js) here
     \<lparr>found =
          [\<lparr>fe_name = ''app.js'', fe_path = [''src'', ''app.js''],
            fe_size = 5, fe_modified = 0, fe_extension = ''.js''\<rparr>,
           \<lparr>fe_name = ''util.js'', fe_path = [''src'', ''lib'', ''util.js''], fe_size = 1,
            fe_modified = 0, fe_extension = ''.js''\<rparr>],
          find_reads = [[], [''src''], [''src'', ''lib'']]\<rparr>"
    unfolding find_js_project_tree by simp
  then show ?thesis
    by (simp add: find_js_project_tree find_cpp_project_tree browse_project_tree_3)
qed

section \<open>The conversation driver: budget, parse failures, tools\<close>

lemma model_calls_append [simp]: "model_calls (xs @ ys) = model_calls xs + model_calls ys"
  by (simp add: model_calls_def)

lemma model_calls_simps [simp]:
  "model_calls [] = 0"
  "model_calls (ModelCall p # t) = Suc (model_calls t)"
  "model_calls (ToolCall k i # t) = model_calls t"
  "model_calls (StepLogged j # t) = model_calls t"
  "model_calls (ParseErrorReported x # t) = model_calls t"
  "model_calls (ActionFailed x # t) = model_calls t"
  "model_calls (UnexpectedError # t) = model_calls t"
  "model_calls (Completed # t) = model_calls t"
  "model_calls (MaxStepsReached # t) = model_calls t"
  by (simp_all add: model_calls_def)

lemma trace_emit [simp]: "trace (emit ev s) = trace s @ [ev]"
  by (simp add: emit_def)

lemma trace_push_message [simp]: "trace (push_message m s) = trace s"
  by (simp add: push_message_def)

lemma messages_emit [simp]: "messages (emit ev s) = messages s"
  by (simp add: emit_def)

lemma messages_push_message [simp]: "messages (push_message m s) = messages s @ [m]"
  by (simp add: push_message_def)

lemma world_emit [simp]: "world (emit ev s) = world s"
  by (simp add: emit_def)

lemma world_push_message [simp]: "world (push_message m s) = world s"
  by (simp add: push_message_def)

lemma tool_calls_simps [simp]:
  "tool_calls [] = 0"
  "tool_calls (xs @ ys) = tool_calls xs + tool_calls ys"
  "tool_calls (ModelCall p # t) = tool_calls t"
  "tool_calls (ToolCall k i # t) = Suc (tool_calls t)"
  "tool_calls (ParseErrorReported x # t) = tool_calls t"
  by (simp_all add: tool_calls_def)


















text \<open>
  Claim C2. When the response of the model does not parse, the loop ends with that
  pass: it has made the one model call of the pass and reported the text it received,
  the message history is what it was before the pass (no observation, and not the
  response either), no tool was called, the world is untouched, and there is no further
  model call.
\<close>

theorem parse_failure_ends_turn:
  assumes "stepCount s < mx"
    and "generateContent e (join_with [CHR 0x0A] (messages s)) = Settled (Some response)"
    and "parse e response = None"
  shows "loop e mx s =
           Returned (s\<lparr>stepCount := stepCount s + 1,
                       trace := trace s @ [ModelCall (join_with [CHR 0x0A] (messages s)),
                                           ParseErrorReported response]\<rparr>) \<and>
         messages (state_of (loop e mx s)) = messages s \<and>
         world (state_of (loop e mx s)) = world s \<and>
         tool_calls (trace (state_of (loop e mx s))) = tool_calls (trace s) \<and>
         model_calls (trace (state_of (loop e mx s))) = model_calls (trace s) + 1"
proof -
  from assms(2,3) have "iteration e s =
      (Break, s\<lparr>stepCount := stepCount s + 1,
             trace := trace s @ [ModelCall (join_with [CHR 0x0A] (messages s)),
                                 ParseErrorReported response]\<rparr>)"
    by (simp add: iteration_def Let_def emit_def)
  with assms(1) have "loop e mx s =
           Returned (s\<lparr>stepCount := stepCount s + 1,
             trace := trace s @ [ModelCall (join_with [CHR 0x0A] (messages s)),
                                 ParseErrorReported response]\<rparr>)"
    by (simp add: loop.simps [of e mx s])
  then show ?thesis by simp
qed

lemma initial_office:
  "initial (office reply) ''hi'' () = turn_start"
  by (simp add: initial_def office_def turn_start_def) code_simp

theorem parse_failure_ends_turn_witness:
  "stepCount (initial (office chatty_text) ''hi'' ()) < maxSteps \<and>
   generateContent (office chatty_text)
       (join_with [CHR 0x0A] (messages (initial (office chatty_text) ''hi'' ()))) =
     Settled (Some chatty_text) \<and>
   parse (office chatty_text) chatty_text = None \<and>
   loop (office chatty_text) maxSteps (initial (office chatty_text) ''hi'' ()) =
     Returned \<lparr>messages = [user_hi], stepCount = 1, world = (),
               trace = [ModelCall user_hi, ParseErrorReported chatty_text]\<rparr>"
proof -
  have a: "stepCount (initial (office chatty_text) ''hi'' ()) < maxSteps"
    by (simp add: initial_def maxSteps_def)
  have b: "generateContent (office chatty_text)
             (join_with [CHR 0x0A] (messages (initial (office chatty_text) ''hi'' ())))
             = Settled (Some chatty_text)"
    by (simp add: office_def)
  have c: "parse (office chatty_text) chatty_text = None"
    by code_simp
  from parse_failure_ends_turn [OF a b c] a b c show ?thesis
    by (simp add: initial_office turn_start_def)
qed

lemma iteration_action:
  assumes "generateContent e (join_with [CHR 0x0A] (messages s)) = Settled (Some response)"
    and "parse e response = Some step"
    and "get_prop step ''type'' = Some (JStr ''action'')"
    and "\<not> to_string_opt_throws (get_prop step ''function'')"
  shows "iteration e s =
           action_branch e step
             (push_message response
                (emit (StepLogged step)
                   (emit (ModelCall (join_with [CHR 0x0A] (messages s)))
                      (s\<lparr>stepCount := stepCount s + 1\<rparr>))))"
proof -
  from assms(3,4) have "\<not> logStep_throws step"
    by (auto simp: logStep_throws_def)
  with assms show ?thesis
    by (simp add: iteration_def Let_def)
qed

text \<open>
  An action step naming a tool that is neither a property of \<^verbatim>\<open>tools\<close> nor inherited by
  it: the response and an observation with the text of the source's
  \<^verbatim>\<open>Tool '...' not found\<close> error are appended to the history, no tool is called, and
  the loop goes on.
\<close>

lemma unregistered_tool_observed:
  assumes "generateContent e (join_with [CHR 0x0A] (messages s)) = Settled (Some response)"
    and "parse e response = Some step"
    and "get_prop step ''type'' = Some (JStr ''action'')"
    and "get_prop step ''function'' = Some (JStr name)"
    and "registry e name = None" and "name \<notin> set object_prototype_names"
  shows "fst (iteration e s) = Continue \<and>
         messages (snd (iteration e s)) =
           messages s @ [response,
             stringify e (observation (observation_text
               (Inl (new_error ''Error'' (not_found_message name) (frames e)))))] \<and>
         world (snd (iteration e s)) = world s \<and>
         tool_calls (trace (snd (iteration e s))) = tool_calls (trace s)"
proof -
  from assms(4) have n: "\<not> to_string_opt_throws (get_prop step ''function'')"
    by (simp add: to_string_opt_throws_def)
  from assms(4-6) show ?thesis
    by (simp add: iteration_action [OF assms(1-3) n] action_branch_def attempt_action_def
        to_string_opt_def to_string_opt_throws_def Let_def tool_calls_def)
qed

text \<open>
  Claim C3 says that every action step naming a tool absent from the registry yields an
  observation that says the tool was not found. The test of the source is
  \<^verbatim>\<open>!tools[step.function]\<close> on an object literal, which is false for the names
  \<^verbatim>\<open>tools\<close> inherits from \<^verbatim>\<open>Object.prototype\<close>. For \<^verbatim>\<open>toString\<close>, which is not a tool,
  no "not found" error is thrown; the call of the missing \<^verbatim>\<open>fn\<close> throws a
  \<^verbatim>\<open>TypeError\<close>, and the observation appended to the history carries its text instead.
  The loop goes on, as the claim says.
\<close>

theorem inherited_name_not_reported_missing:
  assumes "generateContent e (join_with [CHR 0x0A] (messages s)) = Settled (Some response)"
    and "parse e response = Some (action_step ''toString'')"
    and "registry e ''toString'' = None"
  shows "fst (iteration e s) = Continue \<and>
         messages (snd (iteration e s)) =
           messages s @ [response,
             stringify e (observation (observation_text
               (Inl (new_error ''TypeError'' not_a_function_message (frames e)))))] \<and>
         observation_text (Inl (new_error ''TypeError'' not_a_function_message (frames e))) \<noteq>
         observation_text (Inl (new_error ''Error'' (not_found_message ''toString'') (frames e))) \<and>
         ''toString'' \<notin> set tool_names"
proof -
  have t: "get_prop (action_step ''toString'') ''type'' = Some (JStr ''action'')"
    by (simp add: action_step_def)
  have n: "\<not> to_string_opt_throws (get_prop (action_step ''toString'') ''function'')"
    by (simp add: action_step_def to_string_opt_throws_def)
  have f: "to_string_opt (get_prop (action_step ''toString'') ''function'') = ''toString''"
    by (simp add: action_step_def to_string_opt_def)
  have i: "''toString'' \<in> set object_prototype_names"
    by (simp add: object_prototype_names_def)
  have "attempt_action e (action_step ''toString'') s' =
          (Settled (Inl (new_error ''TypeError'' not_a_function_message (frames e))), s')" for s'
    using assms(3) i n by (simp add: attempt_action_def f Let_def)
  then have "fst (iteration e s) = Continue \<and>
         messages (snd (iteration e s)) =
           messages s @ [response,
             stringify e (observation (observation_text
               (Inl (new_error ''TypeError'' not_a_function_message (frames e)))))]"
    by (simp add: iteration_action [OF assms(1,2) t n] action_branch_def Let_def)
  moreover have "observation_text (Inl (new_error ''TypeError'' not_a_function_message (frames e))) \<noteq>
         observation_text (Inl (new_error ''Error'' (not_found_message ''toString'') (frames e)))"
    by (simp add: observation_text_def new_error_def not_a_function_message_def
        not_found_message_def)
  moreover have "''toString'' \<notin> set tool_names"
    by (simp add: tool_names_def)
  ultimately show ?thesis by blast
qed

lemma office_toString_iteration:
  "messages (snd (iteration (office toString_text) turn_start)) =
     [user_hi, toString_text,
      render (observation
        (''Error: tools[step.function].fn is not a function'' @ [CHR 0x0A] @
         ''Stack: TypeError: tools[step.function].fn is not a function'' @ [CHR 0x0A] @
         ''    at handleAIRequest (cli.js:501:19)''))] \<and>
   \<not> str_includes (last (messages (snd (iteration (office toString_text) turn_start))))
       ''not found''"
  by code_simp

theorem inherited_name_not_reported_missing_witness:
  "generateContent (office toString_text) (join_with [CHR 0x0A] (messages turn_start)) =
     Settled (Some toString_text) \<and>
   parse (office toString_text) toString_text = Some (action_step ''toString'') \<and>
   registry (office toString_text) ''toString'' = None \<and>
   fst (iteration (office toString_text) turn_start) = Continue \<and>
   messages (snd (iteration (office toString_text) turn_start)) =
     [user_hi, toString_text,
      render (observation
        (''Error: tools[step.function].fn is not a function'' @ [CHR 0x0A] @
         ''Stack: TypeError: tools[step.function].fn is not a function'' @ [CHR 0x0A] @
         ''    at handleAIRequest (cli.js:501:19)''))] \<and>
   \<not> str_includes (last (messages (snd (iteration (office toString_text) turn_start))))
       ''not found''"
proof -
  have a: "generateContent (office toString_text) (join_with [CHR 0x0A] (messages turn_start)) =
             Settled (Some toString_text)"
    by (simp add: office_def)
  have b: "parse (office toString_text) toString_text = Some (action_step ''toString'')"
    by (simp add: office_def known_texts_def plan_text_def toString_text_def)
  have c: "registry (office toString_text) ''toString'' = None"
    by (simp add: office_def source_registry_def tool_names_def)
  from inherited_name_not_reported_missing [OF a b c]
  have "fst (iteration (office toString_text) turn_start) = Continue" by blast
  with a b c office_toString_iteration show ?thesis
    by blast
qed




end
